theory Spec2Isabelle
  imports Main
begin

section \<open>The formula oracle\<close>

text \<open>
  Modelled from the spec: the boolean-satisfiability oracle (libs/ezsat) is not part of
  the sources at hand. The spec lists what the encoder consumes: a fresh anonymous
  literal, a named (frozen) literal that is allocated on first request and retrieved
  afterwards, the constants true and false, the connectives NOT, AND, OR, IFF and
  if-then-else over literals and literal vectors, an n-ary conjunction, and assume.
  A literal handle is a formula term; variables are numbered in allocation order.
\<close>

datatype expr =
    CONST_TRUE
  | CONST_FALSE
  | Var nat
  | NOT expr
  | AND expr expr
  | OR expr expr
  | IFF expr expr
  | ITE expr expr expr
  | OpAnd "expr list"

fun eval :: "(nat \<Rightarrow> bool) \<Rightarrow> expr \<Rightarrow> bool" where
  "eval v CONST_TRUE = True"
| "eval v CONST_FALSE = False"
| "eval v (Var n) = v n"
| "eval v (NOT a) = (\<not> eval v a)"
| "eval v (AND a b) = (eval v a \<and> eval v b)"
| "eval v (OR a b) = (eval v a \<or> eval v b)"
| "eval v (IFF a b) = (eval v a = eval v b)"
| "eval v (ITE c a b) = (if eval v c then eval v a else eval v b)"
| "eval v (OpAnd es) = list_all (eval v) es"

text \<open>Modelled from the spec: the state of the solver, that is the names of the variables
  allocated so far, the variable of each name, and what was assumed.\<close>

record ezSAT =
  literals :: "string list"
  literalsCache :: "string \<Rightarrow> nat option"
  assumed :: "expr list"

definition ez_init :: ezSAT where
  "ez_init = \<lparr> literals = [], literalsCache = Map.empty, assumed = [] \<rparr>"

text \<open>Modelled from the spec: \<open>literal()\<close> allocates a fresh anonymous variable.\<close>

definition literal :: "ezSAT \<Rightarrow> expr \<times> ezSAT" where
  "literal e = (Var (Suc (length (literals e))), e\<lparr>literals := literals e @ [Nil]\<rparr>)"

text \<open>Modelled from the spec: \<open>frozen_literal()\<close> allocates a fresh anonymous variable
  and keeps it from being eliminated.\<close>

definition frozen_literal :: "ezSAT \<Rightarrow> expr \<times> ezSAT" where
  "frozen_literal e = literal e"

text \<open>Modelled from the spec: \<open>frozen_literal(name)\<close> gives the variable of that name,
  allocated when the name is new.\<close>

definition frozen_literal_named :: "string \<Rightarrow> ezSAT \<Rightarrow> expr \<times> ezSAT" where
  "frozen_literal_named nm e =
     (case literalsCache e nm of
        Some n \<Rightarrow> (Var n, e)
      | None \<Rightarrow>
          (Var (Suc (length (literals e))),
           e\<lparr>literals := literals e @ [nm],
             literalsCache := (literalsCache e)(nm \<mapsto> Suc (length (literals e)))\<rparr>))"

text \<open>Modelled from the spec: \<open>assume\<close> constrains a literal to be true.\<close>

definition assume_ez :: "expr \<Rightarrow> ezSAT \<Rightarrow> ezSAT" where
  "assume_ez a e = e\<lparr>assumed := assumed e @ [a]\<rparr>"

datatype failure = AssertionFailure | OutOfRange

text \<open>Modelled from the spec: the connectives over literal vectors; they refuse operands of
  different lengths.\<close>

definition vec_not :: "expr list \<Rightarrow> expr list" where
  "vec_not a = map NOT a"

definition vec_iff :: "expr list \<Rightarrow> expr list \<Rightarrow> failure + expr list" where
  "vec_iff a b = (if length a \<noteq> length b then Inl AssertionFailure else Inr (map2 IFF a b))"

definition vec_or :: "expr list \<Rightarrow> expr list \<Rightarrow> failure + expr list" where
  "vec_or a b = (if length a \<noteq> length b then Inl AssertionFailure else Inr (map2 OR a b))"

definition vec_ite :: "expr \<Rightarrow> expr list \<Rightarrow> expr list \<Rightarrow> failure + expr list" where
  "vec_ite s a b =
     (if length a \<noteq> length b then Inl AssertionFailure else Inr (map2 (ITE s) a b))"

definition vec_eq :: "expr list \<Rightarrow> expr list \<Rightarrow> failure + expr" where
  "vec_eq a b = (case vec_iff a b of Inl f \<Rightarrow> Inl f | Inr v \<Rightarrow> Inr (OpAnd v))"

section \<open>The hardware IR\<close>

text \<open>
  Modelled from the spec: the IR (kernel/rtlil.h) is not part of the sources at hand.
  A signal bit is a constant or a wire with a bit offset, a signal specification is a
  sequence of bits, a wire has a name, a width and port flags, a cell has a type, named
  ports and a parameter dictionary. A wire reference carries the wire's record; names
  are unique within a module.
\<close>

datatype State = S0 | S1 | Sx | Sz | Sa | Sm

record Wire =
  wire_name :: string
  width :: int
  port_input :: bool
  port_output :: bool
  keep :: bool

datatype SigBit = ConstBit State | WireBit Wire int

type_synonym SigSpec = "SigBit list"

record Cell =
  cell_name :: string
  cell_type :: string
  cell_connections :: "(string \<times> SigSpec) list"
  parameters :: "(string \<times> State list) list"

text \<open>Modelled from the spec: \<open>getPort\<close> reads a port that must exist, \<open>as_bool\<close> tells
  whether a constant has a bit set, \<open>ID\<close> writes a public identifier.\<close>

definition getPort :: "Cell \<Rightarrow> string \<Rightarrow> failure + SigSpec" where
  "getPort c p = (case map_of (cell_connections c) p of None \<Rightarrow> Inl OutOfRange | Some s \<Rightarrow> Inr s)"

definition as_bool :: "State list \<Rightarrow> bool" where
  "as_bool bits = list_ex (\<lambda>b. b = S1) bits"

definition ID :: "string \<Rightarrow> string" where
  "ID s = CHR 0x5C # s"

text \<open>
  Modelled from the spec: \<open>log_id\<close> (kernel/log.h) gives the readable form of an
  identifier, the name without the backslash that marks it public.
\<close>

definition log_id :: "string \<Rightarrow> string" where
  "log_id str =
     (if length str < 2 then str
      else if hd str \<noteq> CHR 0x5C then str
      else if str ! 1 = CHR ''$'' \<or> str ! 1 = CHR 0x5C then str
      else if str ! 1 \<in> set ''0123456789'' then str
      else tl str)"

text \<open>The decimal text that \<open>stringf("%d", n)\<close> prints.\<close>

function dec_nat :: "nat \<Rightarrow> string" where
  "dec_nat n =
     (if n < 10 then [''0123456789'' ! n]
      else dec_nat (n div 10) @ [''0123456789'' ! (n mod 10)])"
  by pat_completeness auto
termination
  by (relation "measure (\<lambda>n. n)") auto

declare dec_nat.simps [simp del]

definition stringf_d :: "int \<Rightarrow> string" where
  "stringf_d i = (if i < 0 then CHR ''-'' # dec_nat (nat (- i)) else dec_nat (nat i))"

section \<open>The encoder session (kernel/satgen.h)\<close>

record SatGen =
  ez :: ezSAT
  sigmap :: "SigBit \<Rightarrow> SigBit"
  prefix :: string
  initial_state :: "SigBit list"
  imported_signals :: "string \<Rightarrow> (SigBit \<Rightarrow> expr option) option"
  initstates :: "string \<times> int \<Rightarrow> bool option"
  ignore_div_by_zero :: bool
  model_undef :: bool
  def_formal :: bool

text \<open>The constructor: \<open>SatGen(ez, sigmap, prefix)\<close>.\<close>

definition SatGen_new :: "ezSAT \<Rightarrow> (SigBit \<Rightarrow> SigBit) \<Rightarrow> string \<Rightarrow> SatGen" where
  "SatGen_new e sm pfx =
     \<lparr> ez = e, sigmap = sm, prefix = pfx, initial_state = [],
       imported_signals = Map.empty, initstates = Map.empty,
       ignore_div_by_zero = False, model_undef = False, def_formal = False \<rparr>"

definition setContext :: "(SigBit \<Rightarrow> SigBit) \<Rightarrow> string \<Rightarrow> SatGen \<Rightarrow> SatGen" where
  "setContext sm pfx s = s\<lparr>sigmap := sm, prefix := pfx\<rparr>"

text \<open>The name under which a wire bit is frozen (line 102).\<close>

definition bit_name :: "string \<Rightarrow> Wire \<Rightarrow> int \<Rightarrow> string" where
  "bit_name pf w off =
     pf @ (if width w = 1 then log_id (wire_name w)
           else log_id (wire_name w) @ '' ['' @ stringf_d off @ '']'')"

text \<open>\<open>imported_signals[pf][bit] = lit\<close>: both subscripts create what is missing.\<close>

definition record_import ::
  "string \<Rightarrow> SigBit \<Rightarrow> expr
     \<Rightarrow> (string \<Rightarrow> (SigBit \<Rightarrow> expr option) option)
     \<Rightarrow> (string \<Rightarrow> (SigBit \<Rightarrow> expr option) option)" where
  "record_import pf sbit l m =
     m(pf \<mapsto> (case m pf of None \<Rightarrow> Map.empty | Some im \<Rightarrow> im)(sbit \<mapsto> l))"

text \<open>One round of the loop of \<open>importSigSpecWorker\<close> (lines 95 to 105).\<close>

definition import_bit :: "string \<Rightarrow> bool \<Rightarrow> bool \<Rightarrow> SigBit \<Rightarrow> SatGen \<Rightarrow> expr \<times> SatGen" where
  "import_bit pf undef_mode dup_undef sbit s =
     (case sbit of
        ConstBit c \<Rightarrow>
          (if model_undef s \<and> dup_undef \<and> c = Sx then
             (let (l, e) = frozen_literal (ez s) in (l, s\<lparr>ez := e\<rparr>))
           else
             (if c = (if undef_mode then Sx else S1) then CONST_TRUE else CONST_FALSE, s))
      | WireBit w off \<Rightarrow>
          (let (l, e) = frozen_literal_named (bit_name pf w off) (ez s)
           in (l, s\<lparr>ez := e, imported_signals := record_import pf sbit l (imported_signals s)\<rparr>)))"

fun import_bits :: "string \<Rightarrow> bool \<Rightarrow> bool \<Rightarrow> SigSpec \<Rightarrow> SatGen \<Rightarrow> expr list \<times> SatGen" where
  "import_bits pf undef_mode dup_undef [] s = ([], s)"
| "import_bits pf undef_mode dup_undef (sbit # bits) s =
     (let (l, s1) = import_bit pf undef_mode dup_undef sbit s;
          (ls, s2) = import_bits pf undef_mode dup_undef bits s1
      in (l # ls, s2))"

definition importSigSpecWorker ::
  "SigSpec \<Rightarrow> string \<Rightarrow> bool \<Rightarrow> bool \<Rightarrow> SatGen \<Rightarrow> failure + (expr list \<times> SatGen)" where
  "importSigSpecWorker sig pf undef_mode dup_undef s =
     (if \<not> (\<not> undef_mode \<or> model_undef s) then Inl AssertionFailure
      else Inr (import_bits pf undef_mode dup_undef (map (sigmap s) sig) s))"

definition timestep_pf :: "int \<Rightarrow> string" where
  "timestep_pf timestep = (if timestep = -1 then [] else ''@'' @ stringf_d timestep @ '':'')"

definition importSigSpec :: "SigSpec \<Rightarrow> int \<Rightarrow> SatGen \<Rightarrow> failure + (expr list \<times> SatGen)" where
  "importSigSpec sig timestep s =
     (if \<not> timestep \<noteq> 0 then Inl AssertionFailure
      else importSigSpecWorker sig (prefix s @ timestep_pf timestep) False False s)"

definition importDefSigSpec :: "SigSpec \<Rightarrow> int \<Rightarrow> SatGen \<Rightarrow> failure + (expr list \<times> SatGen)" where
  "importDefSigSpec sig timestep s =
     (if \<not> timestep \<noteq> 0 then Inl AssertionFailure
      else importSigSpecWorker sig (prefix s @ timestep_pf timestep) False True s)"

definition importUndefSigSpec :: "SigSpec \<Rightarrow> int \<Rightarrow> SatGen \<Rightarrow> failure + (expr list \<times> SatGen)" where
  "importUndefSigSpec sig timestep s =
     (if \<not> timestep \<noteq> 0 then Inl AssertionFailure
      else importSigSpecWorker sig (''undef:'' @ prefix s @ timestep_pf timestep) True False s)"

text \<open>\<open>.front()\<close> of the one-element vector that a single bit imports to.\<close>

definition front :: "failure + (expr list \<times> SatGen) \<Rightarrow> failure + (expr \<times> SatGen)" where
  "front r =
     (case r of
        Inl f \<Rightarrow> Inl f
      | Inr (v, s) \<Rightarrow> (case v of [] \<Rightarrow> Inl OutOfRange | l # _ \<Rightarrow> Inr (l, s)))"

definition importSigBit :: "SigBit \<Rightarrow> int \<Rightarrow> SatGen \<Rightarrow> failure + (expr \<times> SatGen)" where
  "importSigBit sbit timestep s =
     (if \<not> timestep \<noteq> 0 then Inl AssertionFailure
      else front (importSigSpecWorker [sbit] (prefix s @ timestep_pf timestep) False False s))"

definition importDefSigBit :: "SigBit \<Rightarrow> int \<Rightarrow> SatGen \<Rightarrow> failure + (expr \<times> SatGen)" where
  "importDefSigBit sbit timestep s =
     (if \<not> timestep \<noteq> 0 then Inl AssertionFailure
      else front (importSigSpecWorker [sbit] (prefix s @ timestep_pf timestep) False True s))"

definition importUndefSigBit :: "SigBit \<Rightarrow> int \<Rightarrow> SatGen \<Rightarrow> failure + (expr \<times> SatGen)" where
  "importUndefSigBit sbit timestep s =
     (if \<not> timestep \<noteq> 0 then Inl AssertionFailure
      else front (importSigSpecWorker [sbit] (''undef:'' @ prefix s @ timestep_pf timestep)
                    True False s))"

text \<open>
  \<open>importedSigBit\<close> (lines 151 to 156). The subscript \<open>imported_signals[pf]\<close> of a
  \<open>std::map\<close> enters an empty table under \<open>pf\<close> when the scope has none.
\<close>

definition importedSigBit :: "SigBit \<Rightarrow> int \<Rightarrow> SatGen \<Rightarrow> failure + (bool \<times> SatGen)" where
  "importedSigBit sbit timestep s =
     (if \<not> timestep \<noteq> 0 then Inl AssertionFailure
      else
        (let pf = prefix s @ timestep_pf timestep in
         case imported_signals s pf of
           None \<Rightarrow> Inr (False, s\<lparr>imported_signals := (imported_signals s)(pf \<mapsto> Map.empty)\<rparr>)
         | Some im \<Rightarrow> Inr (im sbit \<noteq> None, s)))"


text \<open>\<open>importPropertyCell\<close> (lines 159 to 179), for assert, assume and cover cells.\<close>

definition property_result :: "string \<Rightarrow> expr \<Rightarrow> expr \<Rightarrow> expr" where
  "property_result ty check_bit enable_bit =
     (if ty = ''$cover'' then AND check_bit enable_bit else OR (NOT enable_bit) check_bit)"

definition importPropertyCell :: "Cell \<Rightarrow> int \<Rightarrow> SatGen \<Rightarrow> failure + (expr \<times> SatGen)" where
  "importPropertyCell cell timestep s =
     (if cell_type cell \<notin> {''$assert'', ''$assume'', ''$cover''} then Inl AssertionFailure
      else case getPort cell (ID ''A'') of Inl f \<Rightarrow> Inl f | Inr port_a \<Rightarrow>
      (case getPort cell (ID ''EN'') of Inl f \<Rightarrow> Inl f | Inr port_en \<Rightarrow>
      (let check_sig = map (sigmap s) port_a; en_sig = map (sigmap s) port_en in
       if length check_sig \<noteq> 1 then Inl AssertionFailure
       else if length en_sig \<noteq> 1 then Inl AssertionFailure
       else case front (importDefSigSpec check_sig timestep s) of Inl f \<Rightarrow> Inl f
       | Inr (check_bit, s1) \<Rightarrow>
       (case front (importDefSigSpec en_sig timestep s1) of Inl f \<Rightarrow> Inl f
       | Inr (enable_bit, s2) \<Rightarrow>
       (if model_undef s2 then
          (case front (importUndefSigSpec check_sig timestep s2) of Inl f \<Rightarrow> Inl f
           | Inr (undef_check, s3) \<Rightarrow>
           (case front (importUndefSigSpec en_sig timestep s3) of Inl f \<Rightarrow> Inl f
           | Inr (undef_en, s4) \<Rightarrow>
               Inr (property_result (cell_type cell)
                      (AND (NOT undef_check) check_bit) (AND (NOT undef_en) enable_bit), s4)))
        else Inr (property_result (cell_type cell) check_bit enable_bit, s2))))))"

text \<open>\<open>signals_eq\<close> (lines 181 to 202). The loop reads the four vectors with \<open>at\<close>.\<close>

definition eq_bit :: "expr \<Rightarrow> expr \<Rightarrow> expr \<Rightarrow> expr \<Rightarrow> expr" where
  "eq_bit vl ul vr ur = AND (IFF ul ur) (IFF (OR vl ul) (OR vr ur))"

function eq_bits_loop ::
  "nat \<Rightarrow> nat \<Rightarrow> expr list \<Rightarrow> expr list \<Rightarrow> expr list \<Rightarrow> expr list \<Rightarrow> expr list
     \<Rightarrow> failure + expr list" where
  "eq_bits_loop i n vec_lhs undef_lhs vec_rhs undef_rhs eq_bits =
     (if i < n then
        (if i < length undef_lhs \<and> i < length undef_rhs \<and> i < length vec_lhs \<and> i < length vec_rhs
         then eq_bits_loop (Suc i) n vec_lhs undef_lhs vec_rhs undef_rhs
                (eq_bits @ [eq_bit (vec_lhs ! i) (undef_lhs ! i) (vec_rhs ! i) (undef_rhs ! i)])
         else Inl OutOfRange)
      else Inr eq_bits)"
  by pat_completeness auto
termination
  by (relation "measure (\<lambda>(i, n, _). n - i)") auto

declare eq_bits_loop.simps [simp del]

definition signals_eq ::
  "SigSpec \<Rightarrow> SigSpec \<Rightarrow> int \<Rightarrow> int \<Rightarrow> SatGen \<Rightarrow> failure + (expr \<times> SatGen)" where
  "signals_eq lhs rhs timestep_lhs timestep_rhs0 s =
     (let timestep_rhs = (if timestep_rhs0 < 0 then timestep_lhs else timestep_rhs0) in
      if length lhs \<noteq> length rhs then Inl AssertionFailure
      else case importSigSpec lhs timestep_lhs s of Inl f \<Rightarrow> Inl f
      | Inr (vec_lhs, s1) \<Rightarrow>
      (case importSigSpec rhs timestep_rhs s1 of Inl f \<Rightarrow> Inl f
      | Inr (vec_rhs, s2) \<Rightarrow>
      (if \<not> model_undef s2 then
         (case vec_eq vec_lhs vec_rhs of Inl f \<Rightarrow> Inl f | Inr e \<Rightarrow> Inr (e, s2))
       else case importUndefSigSpec lhs timestep_lhs s2 of Inl f \<Rightarrow> Inl f
       | Inr (undef_lhs, s3) \<Rightarrow>
       (case importUndefSigSpec rhs timestep_rhs s3 of Inl f \<Rightarrow> Inl f
       | Inr (undef_rhs, s4) \<Rightarrow>
       (case eq_bits_loop 0 (length lhs) vec_lhs undef_lhs vec_rhs undef_rhs [] of
          Inl f \<Rightarrow> Inl f
        | Inr eq_bits \<Rightarrow> Inr (OpAnd eq_bits, s4))))))"

text \<open>The width and sign normalizer (lines 204 to 229).\<close>

definition has_param :: "Cell \<Rightarrow> string \<Rightarrow> bool" where
  "has_param cell p = (map_of (parameters cell) p \<noteq> None)"

definition param_as_bool :: "Cell \<Rightarrow> string \<Rightarrow> bool" where
  "param_as_bool cell p = (case map_of (parameters cell) p of None \<Rightarrow> False | Some c \<Rightarrow> as_bool c)"

function extend_loop :: "bool \<Rightarrow> nat \<Rightarrow> nat \<Rightarrow> expr list \<Rightarrow> expr list" where
  "extend_loop is_signed other_size y_width vec =
     (if length vec < other_size \<or> length vec < y_width then
        extend_loop is_signed other_size y_width
          (vec @ [if is_signed \<and> length vec > 0 then last vec else CONST_FALSE])
      else vec)"
  by pat_completeness auto
termination
  by (relation "measure (\<lambda>(_, m, y, v). max m y - length v)") auto

declare extend_loop.simps [simp del]

definition is_signed_binary :: "Cell \<Rightarrow> bool \<Rightarrow> bool" where
  "is_signed_binary cell forced_signed =
     (if \<not> forced_signed \<and> has_param cell (ID ''A_SIGNED'') \<and> has_param cell (ID ''B_SIGNED'')
      then param_as_bool cell (ID ''A_SIGNED'') \<and> param_as_bool cell (ID ''B_SIGNED'')
      else forced_signed)"

definition extendSignalWidth ::
  "expr list \<Rightarrow> expr list \<Rightarrow> Cell \<Rightarrow> nat \<Rightarrow> bool \<Rightarrow> expr list \<times> expr list" where
  "extendSignalWidth vec_a vec_b cell y_width forced_signed =
     (let is_signed = is_signed_binary cell forced_signed;
          vec_a' = extend_loop is_signed (length vec_b) y_width vec_a;
          vec_b' = extend_loop is_signed (length vec_a') y_width vec_b
      in (vec_a', vec_b'))"

function fresh_loop :: "nat \<Rightarrow> expr list \<Rightarrow> ezSAT \<Rightarrow> expr list \<times> ezSAT" where
  "fresh_loop n vec_y e =
     (if length vec_y < n then
        (let (l, e') = literal e in fresh_loop n (vec_y @ [l]) e')
      else (vec_y, e))"
  by pat_completeness auto
termination
  by (relation "measure (\<lambda>(n, v, _). n - length v)") auto

declare fresh_loop.simps [simp del]

definition extendSignalWidth_y ::
  "expr list \<Rightarrow> expr list \<Rightarrow> expr list \<Rightarrow> Cell \<Rightarrow> bool \<Rightarrow> SatGen
     \<Rightarrow> (expr list \<times> expr list \<times> expr list) \<times> SatGen" where
  "extendSignalWidth_y vec_a vec_b vec_y cell forced_signed s =
     (let (vec_a', vec_b') = extendSignalWidth vec_a vec_b cell (length vec_y) forced_signed;
          (vec_y', e) = fresh_loop (length vec_a') vec_y (ez s)
      in ((vec_a', vec_b', vec_y'), s\<lparr>ez := e\<rparr>))"

definition is_signed_unary :: "Cell \<Rightarrow> bool \<Rightarrow> bool" where
  "is_signed_unary cell forced_signed =
     (forced_signed \<or> (has_param cell (ID ''A_SIGNED'') \<and> param_as_bool cell (ID ''A_SIGNED'')))"

definition extendSignalWidthUnary ::
  "expr list \<Rightarrow> expr list \<Rightarrow> Cell \<Rightarrow> bool \<Rightarrow> SatGen \<Rightarrow> (expr list \<times> expr list) \<times> SatGen" where
  "extendSignalWidthUnary vec_a vec_y cell forced_signed s =
     (let is_signed = is_signed_unary cell forced_signed;
          vec_a' = extend_loop is_signed (length vec_y) 0 vec_a;
          (vec_y', e) = fresh_loop (length vec_a') vec_y (ez s)
      in ((vec_a', vec_y'), s\<lparr>ez := e\<rparr>))"

text \<open>Undef gating (lines 231 to 243 and 257 to 260).\<close>

definition gating_constraint :: "expr list \<Rightarrow> expr list \<Rightarrow> expr list \<Rightarrow> failure + expr" where
  "gating_constraint vec_y vec_yy vec_undef =
     (case vec_iff vec_y vec_yy of Inl f \<Rightarrow> Inl f
      | Inr v \<Rightarrow> (case vec_or vec_undef v of Inl f \<Rightarrow> Inl f | Inr w \<Rightarrow> Inr (OpAnd w)))"

definition undefGating :: "expr list \<Rightarrow> expr list \<Rightarrow> expr list \<Rightarrow> SatGen \<Rightarrow> failure + SatGen" where
  "undefGating vec_y vec_yy vec_undef s =
     (if \<not> model_undef s then Inl AssertionFailure
      else if \<not> length vec_y = length vec_yy then Inl AssertionFailure
      else if length vec_y > length vec_undef then
        (let trunc_y = take (length vec_undef) vec_y;
             trunc_yy = take (length vec_undef) vec_yy
         in case gating_constraint trunc_y trunc_yy vec_undef of Inl f \<Rightarrow> Inl f
            | Inr c \<Rightarrow> Inr (s\<lparr>ez := assume_ez c (ez s)\<rparr>))
      else if \<not> length vec_y = length vec_undef then Inl AssertionFailure
      else (case gating_constraint vec_y vec_yy vec_undef of Inl f \<Rightarrow> Inl f
            | Inr c \<Rightarrow> Inr (s\<lparr>ez := assume_ez c (ez s)\<rparr>)))"

definition undefGating_bit :: "expr \<Rightarrow> expr \<Rightarrow> expr \<Rightarrow> SatGen \<Rightarrow> SatGen" where
  "undefGating_bit y yy undef s = s\<lparr>ez := assume_ez (OR undef (IFF y yy)) (ez s)\<rparr>"

text \<open>The multiplexer (lines 245 to 255).\<close>

definition mux ::
  "expr \<Rightarrow> expr \<Rightarrow> expr list \<Rightarrow> expr list \<Rightarrow> expr list \<Rightarrow> expr list \<Rightarrow> SatGen
     \<Rightarrow> failure + (expr list \<times> expr list)" where
  "mux sel undef_s a undef_a b undef_b s =
     (case vec_ite sel b a of Inl f \<Rightarrow> Inl f
      | Inr res \<Rightarrow>
        (if model_undef s then
           (case vec_iff a b of Inl f \<Rightarrow> Inl f
            | Inr iff_ab \<Rightarrow>
            (let unequal_ab = vec_not iff_ab in
             case vec_or undef_a undef_b of Inl f \<Rightarrow> Inl f
             | Inr undef_either \<Rightarrow>
             (case vec_or unequal_ab undef_either of Inl f \<Rightarrow> Inl f
             | Inr undef_ab \<Rightarrow>
             (case vec_ite sel undef_b undef_a of Inl f \<Rightarrow> Inl f
             | Inr undef_sel \<Rightarrow>
             (case vec_ite undef_s undef_ab undef_sel of Inl f \<Rightarrow> Inl f
             | Inr undef_res \<Rightarrow> Inr (res, undef_res))))))
         else Inr (res, [])))"

definition setInitState :: "int \<Rightarrow> SatGen \<Rightarrow> failure + SatGen" where
  "setInitState timestep s =
     (let key = (prefix s, timestep) in
      if \<not> (initstates s key = None \<or> initstates s key = Some True) then Inl AssertionFailure
      else Inr (s\<lparr>initstates := (initstates s)(key \<mapsto> True)\<rparr>))"


section \<open>The path-sensitization miter (passes/cmds/sensitizepath.cc)\<close>

text \<open>
  Modelled from the spec: modules and the operations of the IR on them (kernel/rtlil.cc)
  are not part of the sources at hand. A module holds wires, cells, direct connections,
  memories and processes. Adding a wire or a cell appends it, removing a cell goes by
  its name, a port is set by its name, and the gate helpers \<open>Nex\<close>, \<open>Eqx\<close> and
  \<open>Anyseq\<close> add a cell together with a fresh wire for its output and return that wire
  as a signal. The width and signedness parameters that the helpers also record on the
  new cell are left out. \<open>chunks\<close> groups a signal into its maximal runs: constant
  bits, or consecutive bits of one wire.
\<close>

record Module =
  mod_name :: string
  wires :: "Wire list"
  cells :: "Cell list"
  connections :: "(SigSpec \<times> SigSpec) list"
  memories :: "string list"
  processes :: "string list"
  ports :: "string list"

datatype SigChunk = ChunkConst "State list" | ChunkWire Wire int nat

fun chunk_bits :: "SigChunk \<Rightarrow> SigSpec" where
  "chunk_bits (ChunkConst d) = map ConstBit d"
| "chunk_bits (ChunkWire w off n) = map (\<lambda>i. WireBit w (off + int i)) [0..<n]"

fun chunks :: "SigSpec \<Rightarrow> SigChunk list" where
  "chunks [] = []"
| "chunks (ConstBit c # bits) =
     (case chunks bits of
        ChunkConst d # cs \<Rightarrow> ChunkConst (c # d) # cs
      | cs \<Rightarrow> ChunkConst [c] # cs)"
| "chunks (WireBit w off # bits) =
     (case chunks bits of
        ChunkWire w' off' n # cs \<Rightarrow>
          (if w' = w \<and> off' = off + 1 then ChunkWire w off (Suc n) # cs
           else ChunkWire w off 1 # ChunkWire w' off' n # cs)
      | cs \<Rightarrow> ChunkWire w off 1 # cs)"

definition wire_sig :: "Wire \<Rightarrow> SigSpec" where
  "wire_sig w = chunk_bits (ChunkWire w 0 (nat (width w)))"

definition is_fully_undef :: "SigSpec \<Rightarrow> bool" where
  "is_fully_undef sig = list_all (\<lambda>b. b = ConstBit Sx) sig"

definition new_wire :: "string \<Rightarrow> int \<Rightarrow> Wire" where
  "new_wire nm wd =
     \<lparr> wire_name = nm, width = wd, port_input = False, port_output = False, keep = False \<rparr>"

definition new_module :: "string \<Rightarrow> Module" where
  "new_module nm =
     \<lparr> mod_name = nm, wires = [], cells = [], connections = [], memories = [],
       processes = [], ports = [] \<rparr>"

definition addWire :: "Wire \<Rightarrow> Module \<Rightarrow> Module" where
  "addWire w m = m\<lparr>wires := wires m @ [w]\<rparr>"

definition addCell :: "Cell \<Rightarrow> Module \<Rightarrow> Module" where
  "addCell c m = m\<lparr>cells := cells m @ [c]\<rparr>"

definition remove_cell :: "string \<Rightarrow> Module \<Rightarrow> Module" where
  "remove_cell nm m = m\<lparr>cells := filter (\<lambda>c. cell_name c \<noteq> nm) (cells m)\<rparr>"

fun alist_set :: "'k \<Rightarrow> 'v \<Rightarrow> ('k \<times> 'v) list \<Rightarrow> ('k \<times> 'v) list" where
  "alist_set k v [] = [(k, v)]"
| "alist_set k v ((k', v') # kvs) =
     (if k' = k then (k, v) # kvs else (k', v') # alist_set k v kvs)"

definition setPort :: "string \<Rightarrow> SigSpec \<Rightarrow> Cell \<Rightarrow> Cell" where
  "setPort p sig c = c\<lparr>cell_connections := alist_set p sig (cell_connections c)\<rparr>"

text \<open>Modelled from the spec: \<open>cell->setPort(p, sig)\<close> on the cell of that name in the
  module.\<close>

definition setPort_in :: "string \<Rightarrow> string \<Rightarrow> SigSpec \<Rightarrow> Module \<Rightarrow> Module" where
  "setPort_in nm p sig m =
     m\<lparr>cells := map (\<lambda>c. if cell_name c = nm then setPort p sig c else c) (cells m)\<rparr>"

definition gate_cell :: "string \<Rightarrow> string \<Rightarrow> (string \<times> SigSpec) list \<Rightarrow> Cell" where
  "gate_cell ty nm conns =
     \<lparr> cell_name = nm, cell_type = ty, cell_connections = conns, parameters = [] \<rparr>"

definition cloneInto :: "Module \<Rightarrow> Module \<Rightarrow> Module" where
  "cloneInto src new_mod =
     new_mod\<lparr>wires := wires src, cells := cells src, connections := connections src,
             memories := memories src, processes := processes src\<rparr>"

definition fixup_ports :: "Module \<Rightarrow> Module" where
  "fixup_ports m =
     m\<lparr>ports := map wire_name (filter (\<lambda>w. port_input w \<or> port_output w) (wires m))\<rparr>"

definition has_memories :: "Module \<Rightarrow> bool" where
  "has_memories m = (memories m \<noteq> [])"

definition has_processes :: "Module \<Rightarrow> bool" where
  "has_processes m = (processes m \<noteq> [])"

text \<open>
  Modelled from the spec: the canonicalizer of a module, and what the cell library
  knows of a cell type and of its output ports (kernel/sigtools.h, kernel/celltypes.h),
  are taken as given.
\<close>

record Kernel =
  SigMap_of :: "Module \<Rightarrow> SigBit \<Rightarrow> SigBit"
  cell_known :: "Cell \<Rightarrow> bool"
  cell_output :: "Cell \<Rightarrow> string \<Rightarrow> bool"

text \<open>
  The worker (lines 66 to 76). \<open>autoidx\<close> is the global counter behind \<open>NEW_ID\<close>,
  \<open>undriven_signals\<close> the pool that \<open>run\<close> keeps.
\<close>

record SensitizePathWorker =
  opt_constrain_inputs :: bool
  opt_constrain_all :: bool
  worker_sigmap :: "SigBit \<Rightarrow> SigBit"
  src_module :: Module
  miter :: Module
  wire_map :: "Wire \<Rightarrow> Wire option"
  new_connections :: "(SigSpec \<times> SigSpec) list"
  autoidx :: nat
  undriven_signals :: "SigBit list"

text \<open>
  Modelled from the spec: \<open>NEW_ID\<close> (kernel/yosys.h) gives an identifier that was not
  used before, numbered by a global counter.
\<close>

definition new_id :: "nat \<Rightarrow> string" where
  "new_id n = ''$auto$'' @ dec_nat n"

definition NEW_ID :: "SensitizePathWorker \<Rightarrow> string \<times> SensitizePathWorker" where
  "NEW_ID w = (new_id (autoidx w), w\<lparr>autoidx := Suc (autoidx w)\<rparr>)"

definition label_b :: "string \<Rightarrow> string" where
  "label_b nm = nm @ ''__b''"

definition label_x :: "string \<Rightarrow> string" where
  "label_x nm = nm @ ''__is_x''"

definition isPublic :: "string \<Rightarrow> bool" where
  "isPublic nm = (nm \<noteq> [] \<and> hd nm = CHR 0x5C)"

definition connect :: "SigSpec \<Rightarrow> SigSpec \<Rightarrow> SensitizePathWorker \<Rightarrow> SensitizePathWorker" where
  "connect lhs rhs w = w\<lparr>new_connections := new_connections w @ [(lhs, rhs)]\<rparr>"

definition write_new_connections :: "SensitizePathWorker \<Rightarrow> SensitizePathWorker" where
  "write_new_connections w = w\<lparr>miter := (miter w)\<lparr>connections := new_connections w\<rparr>\<rparr>"

text \<open>Modelled from the spec: \<open>miter->Nex(NEW_ID, a, b)\<close> and \<open>miter->Eqx(NEW_ID, a, b)\<close>,
  by the cell type, and \<open>miter->Anyseq(NEW_ID, n)\<close>. The name of the cell is taken from
  the counter before the name of its output wire.\<close>

definition Compare ::
  "string \<Rightarrow> SigSpec \<Rightarrow> SigSpec \<Rightarrow> SensitizePathWorker \<Rightarrow> SigSpec \<times> SensitizePathWorker" where
  "Compare ty sig_a sig_b w =
     (let (nm, w1) = NEW_ID w;
          (wnm, w2) = NEW_ID w1;
          y = new_wire wnm 1
      in (wire_sig y,
          w2\<lparr>miter :=
               addCell (gate_cell ty nm [(ID ''A'', sig_a), (ID ''B'', sig_b), (ID ''Y'', wire_sig y)])
                 (addWire y (miter w2))\<rparr>))"

definition Anyseq :: "nat \<Rightarrow> SensitizePathWorker \<Rightarrow> SigSpec \<times> SensitizePathWorker" where
  "Anyseq n w =
     (let (nm, w1) = NEW_ID w;
          (wnm, w2) = NEW_ID w1;
          y = new_wire wnm (int n)
      in (wire_sig y,
          w2\<lparr>miter := addCell (gate_cell ''$anyseq'' nm [(ID ''Y'', wire_sig y)])
                         (addWire y (miter w2))\<rparr>))"

text \<open>
  \<open>rewrite_sigspec\<close> (lines 93 to 103). A wire without a shadow in \<open>wire_map\<close> would
  leave a chunk with no wire behind; the model stops there.
\<close>

datatype run_failure = Failed failure | NullWire

fun rewrite_chunks :: "(Wire \<Rightarrow> Wire option) \<Rightarrow> SigChunk list \<Rightarrow> run_failure + SigSpec" where
  "rewrite_chunks wm [] = Inr []"
| "rewrite_chunks wm (ChunkConst d # cs) =
     (case rewrite_chunks wm cs of Inl f \<Rightarrow> Inl f | Inr r \<Rightarrow> Inr (chunk_bits (ChunkConst d) @ r))"
| "rewrite_chunks wm (ChunkWire wr off n # cs) =
     (case wm wr of
        None \<Rightarrow> Inl NullWire
      | Some wr' \<Rightarrow>
          (case rewrite_chunks wm cs of Inl f \<Rightarrow> Inl f
           | Inr r \<Rightarrow> Inr (chunk_bits (ChunkWire wr' off n) @ r)))"

definition rewrite_sigspec :: "(Wire \<Rightarrow> Wire option) \<Rightarrow> SigSpec \<Rightarrow> run_failure + SigSpec" where
  "rewrite_sigspec wm sig = rewrite_chunks wm (chunks sig)"

text \<open>\<open>rewrite_sigspec_constrain\<close> (lines 105 to 146).\<close>

definition flush_x ::
  "nat \<Rightarrow> SigSpec \<Rightarrow> SigSpec \<Rightarrow> SensitizePathWorker
     \<Rightarrow> SigSpec \<times> SigSpec \<times> SensitizePathWorker" where
  "flush_x x_len sig_a sig_b w =
     (if x_len > 0 then
        (let (anyseq, w') = Anyseq x_len w in (sig_a @ anyseq, sig_b @ anyseq, w'))
      else (sig_a, sig_b, w))"

fun constrain_data ::
  "State list \<Rightarrow> nat \<Rightarrow> SigSpec \<Rightarrow> SigSpec \<Rightarrow> SensitizePathWorker
     \<Rightarrow> SigSpec \<times> SigSpec \<times> SensitizePathWorker" where
  "constrain_data [] x_len sig_a sig_b w = flush_x x_len sig_a sig_b w"
| "constrain_data (b # bs) x_len sig_a sig_b w =
     (if b = Sx then constrain_data bs (Suc x_len) sig_a sig_b w
      else
        (let (sig_a1, sig_b1, w1) = flush_x x_len sig_a sig_b w
         in constrain_data bs 0 (sig_a1 @ [ConstBit b]) (sig_b1 @ [ConstBit b]) w1))"

fun constrain_chunks ::
  "SigChunk list \<Rightarrow> SigSpec \<Rightarrow> SigSpec \<Rightarrow> SensitizePathWorker
     \<Rightarrow> run_failure + (SigSpec \<times> SigSpec \<times> SensitizePathWorker)" where
  "constrain_chunks [] sig_a sig_b w = Inr (sig_a, sig_b, w)"
| "constrain_chunks (ChunkWire wr off n # cs) sig_a sig_b w =
     (case wire_map w wr of
        None \<Rightarrow> Inl NullWire
      | Some wr' \<Rightarrow>
          constrain_chunks cs (sig_a @ chunk_bits (ChunkWire wr off n))
            (sig_b @ chunk_bits (ChunkWire wr' off n)) w)"
| "constrain_chunks (ChunkConst d # cs) sig_a sig_b w =
     (let (sig_a1, sig_b1, w1) = constrain_data d 0 sig_a sig_b w
      in constrain_chunks cs sig_a1 sig_b1 w1)"

definition rewrite_sigspec_constrain ::
  "SigSpec \<Rightarrow> SensitizePathWorker
     \<Rightarrow> run_failure + ((SigSpec \<times> SigSpec) \<times> SensitizePathWorker)" where
  "rewrite_sigspec_constrain sig w =
     (case constrain_chunks (chunks sig) [] [] w of
        Inl f \<Rightarrow> Inl f
      | Inr (sig_a, sig_b, w') \<Rightarrow>
          (if \<not> length sig_a = length sig then Inl (Failed AssertionFailure)
           else Inr ((sig_a, sig_b), w')))"

text \<open>\<open>convert_x_equality\<close> (lines 148 to 175).\<close>

definition port_of :: "Cell \<Rightarrow> string \<Rightarrow> run_failure + SigSpec" where
  "port_of c p = (case getPort c p of Inl f \<Rightarrow> Inl (Failed f) | Inr s \<Rightarrow> Inr s)"

definition replace_comparison ::
  "Cell \<Rightarrow> SigSpec \<Rightarrow> SigSpec \<Rightarrow> SensitizePathWorker \<Rightarrow> run_failure + SensitizePathWorker" where
  "replace_comparison eq_cell sig_a sig_b w =
     (let (eq_wire, w1) =
            (if cell_type eq_cell = ''$eqx'' then Compare ''$nex'' sig_a sig_b w
             else Compare ''$eqx'' sig_a sig_b w)
      in case port_of eq_cell (ID ''Y'') of Inl f \<Rightarrow> Inl f
         | Inr sig_y \<Rightarrow>
           (let w2 = connect sig_y eq_wire w1 in
            case rewrite_sigspec (wire_map w2) sig_y of Inl f \<Rightarrow> Inl f
            | Inr sig_y_b \<Rightarrow>
              (let w3 = connect sig_y_b eq_wire w2
               in Inr (w3\<lparr>miter := remove_cell (cell_name eq_cell) (miter w3)\<rparr>))))"

definition convert_x_equality ::
  "Cell \<Rightarrow> SensitizePathWorker \<Rightarrow> run_failure + SensitizePathWorker" where
  "convert_x_equality eq_cell w =
     (case port_of eq_cell (ID ''A'') of Inl f \<Rightarrow> Inl f
      | Inr port_a \<Rightarrow>
      (case port_of eq_cell (ID ''B'') of Inl f \<Rightarrow> Inl f
      | Inr port_b \<Rightarrow>
      (let sig_a = map (worker_sigmap w) port_a;
           sig_b = map (worker_sigmap w) port_b
       in if is_fully_undef sig_a then
            (case rewrite_sigspec (wire_map w) sig_b of Inl f \<Rightarrow> Inl f
             | Inr sig_a' \<Rightarrow> replace_comparison eq_cell sig_a' sig_b w)
          else if is_fully_undef sig_b then
            (case rewrite_sigspec (wire_map w) sig_a of Inl f \<Rightarrow> Inl f
             | Inr sig_b' \<Rightarrow> replace_comparison eq_cell sig_a sig_b' w)
          else Inr w)))"

text \<open>\<open>add_x_wire\<close> (lines 177 to 185).\<close>

definition add_x_wire :: "Wire \<Rightarrow> Wire \<Rightarrow> SensitizePathWorker \<Rightarrow> SensitizePathWorker" where
  "add_x_wire wire_a wire_b w =
     (if \<not> isPublic (wire_name wire_a) then w
      else
        (let wire_x = (wire_b\<lparr>wire_name := label_x (wire_name wire_a)\<rparr>)\<lparr>keep := True\<rparr>;
             w1 = w\<lparr>miter := addWire wire_x (miter w)\<rparr>;
             (nm, w2) = NEW_ID w1
         in w2\<lparr>miter :=
                 addCell (gate_cell ''$nex'' nm
                            [(ID ''A'', wire_sig wire_a), (ID ''B'', wire_sig wire_b),
                             (ID ''Y'', wire_sig wire_x)])
                   (miter w2)\<rparr>))"

text \<open>The pool of undriven signals: wire bits only, each once.\<close>

definition pool_add :: "SigSpec \<Rightarrow> SigBit list \<Rightarrow> SigBit list" where
  "pool_add sig pool =
     fold (\<lambda>b p. case b of ConstBit _ \<Rightarrow> p | WireBit _ _ \<Rightarrow> (if b \<in> set p then p else p @ [b]))
       sig pool"

definition pool_del :: "SigSpec \<Rightarrow> SigBit list \<Rightarrow> SigBit list" where
  "pool_del sig pool = filter (\<lambda>b. b \<notin> set sig) pool"

text \<open>The loop over the wires (lines 199 to 223).\<close>

definition wire_step :: "Wire \<Rightarrow> SensitizePathWorker \<Rightarrow> SensitizePathWorker" where
  "wire_step wire w =
     (let (nm, w1) = NEW_ID w;
          wire_b = (wire\<lparr>wire_name := nm\<rparr>)\<lparr>port_input := False, port_output := False\<rparr>;
          w2 = w1\<lparr>miter := addWire wire_b (miter w1), wire_map := (wire_map w1)(wire \<mapsto> wire_b)\<rparr>;
          w3 = add_x_wire wire wire_b w2
      in if opt_constrain_all w3 then
           w3\<lparr>undriven_signals :=
                pool_add (map (worker_sigmap w3) (wire_sig wire)) (undriven_signals w3)\<rparr>
         else if port_input wire then
           (if opt_constrain_inputs w3 then connect (wire_sig wire_b) (wire_sig wire) w3
            else (let (anyseq, w4) = Anyseq (nat (width wire_b)) w3
                  in connect (wire_sig wire_b) anyseq w4))
         else w3)"

text \<open>The loop over the cells (lines 225 to 262).\<close>

definition mark_driven :: "Kernel \<Rightarrow> Cell \<Rightarrow> SensitizePathWorker \<Rightarrow> SensitizePathWorker" where
  "mark_driven K cell w =
     w\<lparr>undriven_signals :=
         fold (\<lambda>(p, sig) pool.
                 if \<not> cell_known K cell \<or> cell_output K cell p
                 then pool_del (map (worker_sigmap w) sig) pool else pool)
           (cell_connections cell) (undriven_signals w)\<rparr>"

fun copy_ports ::
  "string \<Rightarrow> (string \<times> SigSpec) list \<Rightarrow> SensitizePathWorker
     \<Rightarrow> run_failure + SensitizePathWorker" where
  "copy_ports nm [] w = Inr w"
| "copy_ports nm ((p, sig) # conns) w =
     (if opt_constrain_all w then
        (case rewrite_sigspec_constrain sig w of Inl f \<Rightarrow> Inl f
         | Inr ((sig_a, sig_b), w1) \<Rightarrow>
             copy_ports nm conns
               (w1\<lparr>miter := setPort_in (label_b nm) p sig_b (setPort_in nm p sig_a (miter w1))\<rparr>))
      else
        (case rewrite_sigspec (wire_map w) sig of Inl f \<Rightarrow> Inl f
         | Inr sig_b \<Rightarrow>
             copy_ports nm conns (w\<lparr>miter := setPort_in (label_b nm) p sig_b (miter w)\<rparr>)))"

definition copy_cell :: "Cell \<Rightarrow> SensitizePathWorker \<Rightarrow> run_failure + SensitizePathWorker" where
  "copy_cell cell w =
     (let cell_b = cell\<lparr>cell_name := label_b (cell_name cell)\<rparr>
      in copy_ports (cell_name cell) (cell_connections cell_b)
           (w\<lparr>miter := addCell cell_b (miter w)\<rparr>))"

definition cell_step ::
  "Kernel \<Rightarrow> Cell \<Rightarrow> SensitizePathWorker \<Rightarrow> run_failure + SensitizePathWorker" where
  "cell_step K cell w0 =
     (let w = (if opt_constrain_all w0 then mark_driven K cell w0 else w0) in
      if cell_type cell \<in> {''$assert'', ''$live'', ''$cover''} then Inr w
      else if cell_type cell \<in> {''$anyseq'', ''$anyconst'', ''$allseq'', ''$allconst''} then
        (case port_of cell (ID ''Y'') of Inl f \<Rightarrow> Inl f
         | Inr sig \<Rightarrow>
           (case rewrite_sigspec (wire_map w) sig of Inl f \<Rightarrow> Inl f
            | Inr sig_b \<Rightarrow> Inr (connect sig_b sig w)))
      else if \<not> opt_constrain_all w \<and> cell_type cell \<in> {''$eqx'', ''$nex''} then
        convert_x_equality cell w
      else copy_cell cell w)"

fun cell_loop ::
  "Kernel \<Rightarrow> Cell list \<Rightarrow> SensitizePathWorker \<Rightarrow> run_failure + SensitizePathWorker" where
  "cell_loop K [] w = Inr w"
| "cell_loop K (cell # cs) w =
     (case cell_step K cell w of Inl f \<Rightarrow> Inl f | Inr w' \<Rightarrow> cell_loop K cs w')"

text \<open>The loop over the direct connections (lines 264 to 273).\<close>

definition conn_step ::
  "SigSpec \<times> SigSpec \<Rightarrow> SensitizePathWorker \<Rightarrow> run_failure + SensitizePathWorker" where
  "conn_step conn w =
     (if opt_constrain_all w then
        (case rewrite_sigspec_constrain (snd conn) w of Inl f \<Rightarrow> Inl f
         | Inr ((sig_a, sig_b), w1) \<Rightarrow>
           (let w2 = connect (fst conn) sig_a w1 in
            case rewrite_sigspec (wire_map w2) (fst conn) of Inl f \<Rightarrow> Inl f
            | Inr lhs_b \<Rightarrow> Inr (connect lhs_b sig_b w2)))
      else
        (let w1 = connect (fst conn) (snd conn) w in
         case rewrite_sigspec (wire_map w1) (fst conn) of Inl f \<Rightarrow> Inl f
         | Inr lhs_b \<Rightarrow>
           (case rewrite_sigspec (wire_map w1) (snd conn) of Inl f \<Rightarrow> Inl f
            | Inr rhs_b \<Rightarrow> Inr (connect lhs_b rhs_b w1))))"

fun conn_loop ::
  "(SigSpec \<times> SigSpec) list \<Rightarrow> SensitizePathWorker \<Rightarrow> run_failure + SensitizePathWorker" where
  "conn_loop [] w = Inr w"
| "conn_loop (conn # cs) w =
     (case conn_step conn w of Inl f \<Rightarrow> Inl f | Inr w' \<Rightarrow> conn_loop cs w')"

text \<open>
  The undriven wires (lines 277 to 293). The source exports the pool ordered by
  address; the model keeps the order of entry.
\<close>

fun constrain_undriven ::
  "SigChunk list \<Rightarrow> SensitizePathWorker \<Rightarrow> run_failure + SensitizePathWorker" where
  "constrain_undriven [] w = Inr w"
| "constrain_undriven (ChunkConst d # cs) w = Inl (Failed AssertionFailure)"
| "constrain_undriven (ChunkWire wr off n # cs) w =
     (case wire_map w wr of
        None \<Rightarrow> Inl NullWire
      | Some wr' \<Rightarrow>
          (let chunk_a = chunk_bits (ChunkWire wr off n);
               chunk_b = chunk_bits (ChunkWire wr' off n)
           in if port_input wr then constrain_undriven cs (connect chunk_b chunk_a w)
              else
                (let (anyseq, w1) = Anyseq n w
                 in constrain_undriven cs (connect chunk_b anyseq (connect chunk_a anyseq w1)))))"

text \<open>\<open>run\<close> (lines 187 to 296).\<close>

definition run :: "Kernel \<Rightarrow> SensitizePathWorker \<Rightarrow> run_failure + SensitizePathWorker" where
  "run K w0 =
     (let w1 = w0\<lparr>miter := cloneInto (src_module w0) (miter w0)\<rparr>;
          w2 = w1\<lparr>worker_sigmap := SigMap_of K (miter w1), undriven_signals := []\<rparr>;
          wires0 = wires (miter w2);
          cells0 = cells (miter w2);
          connections0 = connections (miter w2);
          w3 = fold wire_step wires0 w2
      in case cell_loop K cells0 w3 of Inl f \<Rightarrow> Inl f
         | Inr w4 \<Rightarrow>
           (case conn_loop connections0 w4 of Inl f \<Rightarrow> Inl f
            | Inr w5 \<Rightarrow>
              (let w6 = w5\<lparr>miter := fixup_ports (miter w5)\<rparr> in
               case (if opt_constrain_all w6
                     then constrain_undriven (chunks (undriven_signals w6)) w6
                     else Inr w6) of
                 Inl f \<Rightarrow> Inl f
               | Inr w7 \<Rightarrow> Inr (write_new_connections w7))))"

text \<open>The command (lines 322 to 368).\<close>

datatype cmd_error =
    UnknownOption
  | InvalidNumberOfModuleArguments
  | CantFindSourceModule
  | MiterModuleAlreadyExists
  | SourceContainsMemoriesOrProcesses

datatype outcome = Done | CmdError cmd_error | Fatal run_failure

type_synonym Design = "string \<Rightarrow> Module option"

definition escape_id :: "string \<Rightarrow> string" where
  "escape_id str =
     (if length str > 0 \<and> hd str \<noteq> CHR 0x5C \<and> hd str \<noteq> CHR ''$'' then CHR 0x5C # str
      else str)"

function parse_options ::
  "string list \<Rightarrow> nat \<Rightarrow> bool \<Rightarrow> bool \<Rightarrow> cmd_error + (nat \<times> bool \<times> bool)" where
  "parse_options args argidx c_inputs c_all =
     (if argidx < length args then
        (if args ! argidx = ''-constrain_inputs'' then parse_options args (Suc argidx) True c_all
         else if args ! argidx = ''-constrain_undef'' then
           parse_options args (Suc argidx) c_inputs True
         else if args ! argidx \<noteq> [] \<and> hd (args ! argidx) = CHR ''-'' then Inl UnknownOption
         else Inr (argidx, c_inputs, c_all))
      else Inr (argidx, c_inputs, c_all))"
  by pat_completeness auto
termination
  by (relation "measure (\<lambda>(args, argidx, _). length args - argidx)") auto

declare parse_options.simps [simp del]

definition new_worker :: "bool \<Rightarrow> bool \<Rightarrow> Module \<Rightarrow> Module \<Rightarrow> nat \<Rightarrow> SensitizePathWorker" where
  "new_worker c_inputs c_all src mit idx =
     \<lparr> opt_constrain_inputs = c_inputs, opt_constrain_all = c_all, worker_sigmap = id,
       src_module = src, miter = mit, wire_map = Map.empty, new_connections = [],
       autoidx = idx, undriven_signals = [] \<rparr>"

text \<open>
  \<open>execute\<close> returns how the command ended and the design it leaves. A fatal failure
  inside \<open>run\<close> ends the process; the design is then given as of \<open>addModule\<close>.
\<close>

definition execute :: "Kernel \<Rightarrow> nat \<Rightarrow> string list \<Rightarrow> Design \<Rightarrow> outcome \<times> Design" where
  "execute K idx args design =
     (case parse_options args 1 False False of
        Inl e \<Rightarrow> (CmdError e, design)
      | Inr (argidx, c_inputs, c_all) \<Rightarrow>
          (if length args \<noteq> argidx + 2 then (CmdError InvalidNumberOfModuleArguments, design)
           else
             (let src = design (escape_id (args ! argidx));
                  mit = design (escape_id (args ! (argidx + 1)))
              in case src of
                   None \<Rightarrow> (CmdError CantFindSourceModule, design)
                 | Some src_mod \<Rightarrow>
                     (if mit \<noteq> None then (CmdError MiterModuleAlreadyExists, design)
                      else if has_memories src_mod \<or> has_processes src_mod then
                        (CmdError SourceContainsMemoriesOrProcesses, design)
                      else
                        (let mit_name = escape_id (args ! (argidx + 1));
                             design1 = design(mit_name \<mapsto> new_module mit_name)
                         in case run K (new_worker c_inputs c_all src_mod (new_module mit_name) idx) of
                              Inl f \<Rightarrow> (Fatal f, design1)
                            | Inr w \<Rightarrow> (Done, design1(mit_name \<mapsto> miter w)))))))"


section \<open>Notions used to state the properties\<close>

text \<open>The assignment that makes every variable false.\<close>

definition all_false :: "nat \<Rightarrow> bool" where
  "all_false n = False"

text \<open>The cached literal of a bit under a scope, if any.\<close>

definition cached :: "SatGen \<Rightarrow> string \<Rightarrow> SigBit \<Rightarrow> expr option" where
  "cached s pf b = (case imported_signals s pf of None \<Rightarrow> None | Some im \<Rightarrow> im b)"

text \<open>The import entry points as data, to speak of a sequence of imports.\<close>

datatype import_call =
    ImportSigSpec SigSpec int
  | ImportDefSigSpec SigSpec int
  | ImportUndefSigSpec SigSpec int
  | ImportSigBit SigBit int
  | ImportDefSigBit SigBit int
  | ImportUndefSigBit SigBit int

definition single :: "failure + (expr \<times> SatGen) \<Rightarrow> failure + (expr list \<times> SatGen)" where
  "single r = (case r of Inl f \<Rightarrow> Inl f | Inr (l, s) \<Rightarrow> Inr ([l], s))"

fun run_import :: "import_call \<Rightarrow> SatGen \<Rightarrow> failure + (expr list \<times> SatGen)" where
  "run_import (ImportSigSpec sig t) s = importSigSpec sig t s"
| "run_import (ImportDefSigSpec sig t) s = importDefSigSpec sig t s"
| "run_import (ImportUndefSigSpec sig t) s = importUndefSigSpec sig t s"
| "run_import (ImportSigBit b t) s = single (importSigBit b t s)"
| "run_import (ImportDefSigBit b t) s = single (importDefSigBit b t s)"
| "run_import (ImportUndefSigBit b t) s = single (importUndefSigBit b t s)"

fun run_imports :: "import_call list \<Rightarrow> SatGen \<Rightarrow> failure + SatGen" where
  "run_imports [] s = Inr s"
| "run_imports (c # cs) s =
     (case run_import c s of Inl f \<Rightarrow> Inl f | Inr (_, s') \<Rightarrow> run_imports cs s')"

fun call_sig :: "import_call \<Rightarrow> SigSpec" where
  "call_sig (ImportSigSpec sig t) = sig"
| "call_sig (ImportDefSigSpec sig t) = sig"
| "call_sig (ImportUndefSigSpec sig t) = sig"
| "call_sig (ImportSigBit b t) = [b]"
| "call_sig (ImportDefSigBit b t) = [b]"
| "call_sig (ImportUndefSigBit b t) = [b]"

fun call_timestep :: "import_call \<Rightarrow> int" where
  "call_timestep (ImportSigSpec sig t) = t"
| "call_timestep (ImportDefSigSpec sig t) = t"
| "call_timestep (ImportUndefSigSpec sig t) = t"
| "call_timestep (ImportSigBit b t) = t"
| "call_timestep (ImportDefSigBit b t) = t"
| "call_timestep (ImportUndefSigBit b t) = t"

text \<open>Whether the call asks for undef flags, and whether it duplicates constant X.\<close>

fun call_undef :: "import_call \<Rightarrow> bool" where
  "call_undef (ImportUndefSigSpec sig t) = True"
| "call_undef (ImportUndefSigBit b t) = True"
| "call_undef _ = False"

fun call_dup :: "import_call \<Rightarrow> bool" where
  "call_dup (ImportDefSigSpec sig t) = True"
| "call_dup (ImportDefSigBit b t) = True"
| "call_dup _ = False"

text \<open>A later state of the same session: same context, and every named literal kept.\<close>

definition later :: "SatGen \<Rightarrow> SatGen \<Rightarrow> bool" where
  "later s s' =
     (sigmap s' = sigmap s \<and> prefix s' = prefix s \<and> model_undef s' = model_undef s \<and>
      (\<forall>nm n. literalsCache (ez s) nm = Some n \<longrightarrow> literalsCache (ez s') nm = Some n))"

text \<open>The literal of a constant bit outside the duplicating mode (line 100).\<close>

definition const_lit :: "bool \<Rightarrow> State \<Rightarrow> expr" where
  "const_lit undef_mode c = (if c = (if undef_mode then Sx else S1) then CONST_TRUE else CONST_FALSE)"

text \<open>The undef rule of the multiplexer as the spec words it: values or flags disagree.\<close>

definition claimed_mux_undef :: "bool \<Rightarrow> bool \<Rightarrow> bool \<Rightarrow> bool \<Rightarrow> bool \<Rightarrow> bool \<Rightarrow> bool" where
  "claimed_mux_undef sel undef_s a undef_a b undef_b =
     (if undef_s then (a \<noteq> b \<or> undef_a \<noteq> undef_b) else if sel then undef_b else undef_a)"

text \<open>A session with undef modelling switched on or off, and cells for the examples.\<close>

definition session :: "bool \<Rightarrow> SatGen" where
  "session mu = (SatGen_new ez_init id [])\<lparr>model_undef := mu\<rparr>"

definition signed_cell :: Cell where
  "signed_cell =
     \<lparr> cell_name = ID ''add1'', cell_type = ''$add'', cell_connections = [],
       parameters = [(ID ''A_SIGNED'', [S1]), (ID ''B_SIGNED'', [S1])] \<rparr>"

text \<open>The scope under which a call imports: the undef namespace, the prefix, the timestep.\<close>

definition scope_pf :: "SatGen \<Rightarrow> bool \<Rightarrow> int \<Rightarrow> string" where
  "scope_pf s undef_mode t =
     (if undef_mode then ''undef:'' @ prefix s @ timestep_pf t else prefix s @ timestep_pf t)"

text \<open>The timestep that \<open>signals_eq\<close> uses for its right operand (lines 183 and 184).\<close>

definition effective_rhs :: "int \<Rightarrow> int \<Rightarrow> int" where
  "effective_rhs timestep_lhs timestep_rhs = (if timestep_rhs < 0 then timestep_lhs else timestep_rhs)"

text \<open>The assignment that makes exactly one variable true.\<close>

definition only_var :: "nat \<Rightarrow> nat \<Rightarrow> bool" where
  "only_var k n = (n = k)"

text \<open>What a call returned, and the state it left (the state before, had it failed).\<close>

definition result_of :: "failure + ('a \<times> SatGen) \<Rightarrow> 'a option" where
  "result_of r = (case r of Inl _ \<Rightarrow> None | Inr (x, _) \<Rightarrow> Some x)"

definition state_after :: "failure + ('a \<times> SatGen) \<Rightarrow> SatGen \<Rightarrow> SatGen" where
  "state_after r s = (case r of Inl _ \<Rightarrow> s | Inr (_, s') \<Rightarrow> s')"

text \<open>Two one-bit wires and a two-bit wire.\<close>

definition wire_a :: Wire where
  "wire_a = new_wire (ID ''a'') 1"

definition wire_b :: Wire where
  "wire_b = new_wire (ID ''b'') 1"

definition wire_d :: Wire where
  "wire_d = new_wire (ID ''d'') 2"

text \<open>An assert cell over the two one-bit wires.\<close>

definition assert_cell :: Cell where
  "assert_cell =
     \<lparr> cell_name = ID ''check1'', cell_type = ''$assert'',
       cell_connections = [(ID ''A'', [WireBit wire_a 0]), (ID ''EN'', [WireBit wire_b 0])],
       parameters = [] \<rparr>"

text \<open>A call that meets the contract of its entry point: a timestep other than 0, and undef
  flags asked for only while undef modelling is on.\<close>

definition call_ok :: "bool \<Rightarrow> import_call \<Rightarrow> bool" where
  "call_ok mu c = (call_timestep c \<noteq> 0 \<and> (call_undef c \<longrightarrow> mu))"


section \<open>Notions used to state the properties of the miter\<close>




text \<open>The source and destination module names of a well-formed command line.\<close>

definition module_args :: "string list \<Rightarrow> (string \<times> string) option" where
  "module_args args =
     (case parse_options args 1 False False of
        Inl _ \<Rightarrow> None
      | Inr (argidx, _, _) \<Rightarrow>
          (if length args = argidx + 2
           then Some (escape_id (args ! argidx), escape_id (args ! (argidx + 1)))
           else None))"


text \<open>A kernel with the identity as canonicalizer, and a module for the examples:
  one cell computing \<open>sig === 1'bx\<close> into \<open>y\<close>.\<close>

definition kernel0 :: Kernel where
  "kernel0 =
     \<lparr> SigMap_of = (\<lambda>m. id), cell_known = (\<lambda>c. True), cell_output = (\<lambda>c p. p = ID ''Y'') \<rparr>"

definition wire_sig1 :: Wire where
  "wire_sig1 = new_wire (ID ''sig'') 1"

definition wire_y :: Wire where
  "wire_y = new_wire (ID ''y'') 1"

definition eqx_cell :: Cell where
  "eqx_cell =
     \<lparr> cell_name = ''$eqx$1'', cell_type = ''$eqx'',
       cell_connections =
         [(ID ''A'', [WireBit wire_sig1 0]), (ID ''B'', [ConstBit Sx]), (ID ''Y'', [WireBit wire_y 0])],
       parameters = [] \<rparr>"

definition eqx_module :: Module where
  "eqx_module = (new_module (ID ''top''))\<lparr>wires := [wire_sig1, wire_y], cells := [eqx_cell]\<rparr>"

definition design0 :: Design where
  "design0 = [ID ''top'' \<mapsto> eqx_module]"


text \<open>Whether a module has a cell of that name and type.\<close>

definition has_cell :: "Module \<Rightarrow> string \<Rightarrow> string \<Rightarrow> bool" where
  "has_cell m nm ty = list_ex (\<lambda>c. cell_name c = nm \<and> cell_type c = ty) (cells m)"


text \<open>Whether \<open>run\<close> came to its end, and the miter it built.\<close>

definition ran :: "run_failure + SensitizePathWorker \<Rightarrow> bool" where
  "ran r = (case r of Inl _ \<Rightarrow> False | Inr _ \<Rightarrow> True)"


text \<open>The worker that the command sets up for the example module, with and without
  \<open>-constrain_undef\<close>.\<close>

definition eqx_worker :: "bool \<Rightarrow> SensitizePathWorker" where
  "eqx_worker c_all = new_worker False c_all eqx_module (new_module (ID ''miter'')) 1"








section \<open>The width and sign normalizer\<close>

lemma extend_loop_eq:
  "extend_loop sg m y v =
     v @ replicate (max m y - length v) (if sg \<and> v \<noteq> [] then last v else CONST_FALSE)"
proof (induction sg m y v rule: extend_loop.induct)
  case (1 sg m y v)
  show ?case
  proof (cases "length v < m \<or> length v < y")
    case True
    let ?x = "if sg \<and> length v > 0 then last v else CONST_FALSE"
    have step: "extend_loop sg m y v = extend_loop sg m y (v @ [?x])"
      using True by (subst extend_loop.simps) simp
    have k: "max m y - length v = Suc (max m y - length (v @ [?x]))"
      using True by auto
    have ih: "extend_loop sg m y (v @ [?x]) =
        (v @ [?x]) @ replicate (max m y - length (v @ [?x]))
           (if sg \<and> v @ [?x] \<noteq> [] then last (v @ [?x]) else CONST_FALSE)"
      by (rule "1.IH"[OF True])
    have pad: "(if sg \<and> v @ [?x] \<noteq> [] then last (v @ [?x]) else CONST_FALSE) = ?x"
      by simp
    have px: "?x = (if sg \<and> v \<noteq> [] then last v else CONST_FALSE)" by simp
    show ?thesis
      unfolding step ih pad k px[symmetric] by (simp add: replicate_append_same)
  next
    case False
    then have "extend_loop sg m y v = v"
      by (subst extend_loop.simps) simp
    moreover have "max m y - length v = 0" using False by auto
    ultimately show ?thesis by simp
  qed
qed

lemma fresh_loop_prefix:
  "fresh_loop n vy e = (vy', e') \<Longrightarrow> length vy' = max n (length vy) \<and> take (length vy) vy' = vy"
proof (induction n vy e arbitrary: vy' e' rule: fresh_loop.induct)
  case (1 n vy e)
  show ?case
  proof (cases "length vy < n")
    case True
    obtain l e1 where le: "literal e = (l, e1)" by (cases "literal e")
    have "fresh_loop n vy e = fresh_loop n (vy @ [l]) e1"
      using True le by (subst fresh_loop.simps) simp
    with "1.prems" have r: "fresh_loop n (vy @ [l]) e1 = (vy', e')" by simp
    from "1.IH"[OF True le[symmetric] refl r]
    have a: "length vy' = max n (length (vy @ [l]))" and b: "take (length (vy @ [l])) vy' = vy @ [l]"
      by auto
    have "take (length vy) (take (length (vy @ [l])) vy') = take (length vy) vy'"
      by (simp add: min_def)
    with b have "take (length vy) vy' = vy" by simp
    with a True show ?thesis by (simp add: max_def)
  next
    case False
    then have "fresh_loop n vy e = (vy, e)" by (subst fresh_loop.simps) simp
    with "1.prems" False show ?thesis by auto
  qed
qed

lemma extendSignalWidth_eq:
  "extendSignalWidth vec_a vec_b cell y_width forced_signed =
     (let n = max (max (length vec_a) (length vec_b)) y_width;
          sg = (forced_signed \<or>
                (has_param cell (ID ''A_SIGNED'') \<and> has_param cell (ID ''B_SIGNED'') \<and>
                 param_as_bool cell (ID ''A_SIGNED'') \<and> param_as_bool cell (ID ''B_SIGNED'')))
      in (vec_a @ replicate (n - length vec_a)
                    (if sg \<and> vec_a \<noteq> [] then last vec_a else CONST_FALSE),
          vec_b @ replicate (n - length vec_b)
                    (if sg \<and> vec_b \<noteq> [] then last vec_b else CONST_FALSE)))"
proof -
  have sg: "is_signed_binary cell forced_signed =
      (forced_signed \<or>
        (has_param cell (ID ''A_SIGNED'') \<and> has_param cell (ID ''B_SIGNED'') \<and>
         param_as_bool cell (ID ''A_SIGNED'') \<and> param_as_bool cell (ID ''B_SIGNED'')))"
    by (auto simp: is_signed_binary_def)
  have n1: "max (length vec_b) y_width - length vec_a =
      max (max (length vec_a) (length vec_b)) y_width - length vec_a"
    by (simp add: max_def)
  have n2: "max (length vec_a + (max (length vec_b) y_width - length vec_a)) y_width - length vec_b
      = max (max (length vec_a) (length vec_b)) y_width - length vec_b"
    by (simp add: max_def)
  show ?thesis
    unfolding extendSignalWidth_def Let_def sg extend_loop_eq
    by (simp add: n1 n2)
qed

lemma extendSignalWidth_example:
  "extendSignalWidth [CONST_FALSE, CONST_FALSE, CONST_TRUE, CONST_TRUE] [Var 1, Var 2]
        signed_cell 6 False =
       ([CONST_FALSE, CONST_FALSE, CONST_TRUE, CONST_TRUE, CONST_TRUE, CONST_TRUE],
        [Var 1, Var 2, Var 2, Var 2, Var 2, Var 2])"
  unfolding extendSignalWidth_eq
  by (simp add: signed_cell_def has_param_def param_as_bool_def as_bool_def ID_def Let_def
      numeral_eq_Suc)

lemma extendSignalWidthUnary_operand:
  "fst (fst (extendSignalWidthUnary vec_a vec_y cell forced_signed s)) =
       vec_a @ replicate (length vec_y - length vec_a)
                 (if (forced_signed \<or>
                      (has_param cell (ID ''A_SIGNED'') \<and> param_as_bool cell (ID ''A_SIGNED'')))
                     \<and> vec_a \<noteq> []
                  then last vec_a else CONST_FALSE)"
  unfolding extendSignalWidthUnary_def Let_def is_signed_unary_def extend_loop_eq
  by (simp add: split_def)

section \<open>Undef gating and the multiplexer\<close>

lemma eval_OpAnd_map2_OR_IFF:
  "length y = n \<Longrightarrow> length yy = n \<Longrightarrow> length u = n \<Longrightarrow>
   eval v (OpAnd (map2 OR u (map2 IFF y yy))) =
     (\<forall>i<n. \<not> eval v (u ! i) \<longrightarrow> eval v (y ! i) = eval v (yy ! i))"
  by (auto simp: list_all_length)

lemma gating_constraint_eq:
  "length y = length u \<Longrightarrow> length yy = length u \<Longrightarrow>
   gating_constraint y yy u = Inr (OpAnd (map2 OR u (map2 IFF y yy)))"
  by (simp add: gating_constraint_def vec_iff_def vec_or_def)

lemma mux_eq:
  assumes "length b = length a" "length undef_a = length a" "length undef_b = length a"
  shows "mux sel undef_s a undef_a b undef_b s =
     Inr (map2 (ITE sel) b a,
          if model_undef s then
            map2 (ITE undef_s) (map2 OR (map NOT (map2 IFF a b)) (map2 OR undef_a undef_b))
              (map2 (ITE sel) undef_b undef_a)
          else [])"
  using assms by (simp add: mux_def vec_ite_def vec_iff_def vec_or_def vec_not_def Let_def)


section \<open>Imports within a session\<close>

lemma later_refl: "later s s"
  by (simp add: later_def)

lemma later_trans: "later s s1 \<Longrightarrow> later s1 s2 \<Longrightarrow> later s s2"
  by (simp add: later_def)

lemma frozen_literal_named_cached:
  "frozen_literal_named nm e = (l, e') \<Longrightarrow> \<exists>k. l = Var k \<and> literalsCache e' nm = Some k"
  by (auto simp: frozen_literal_named_def split: option.splits)

lemma frozen_literal_named_keeps:
  "frozen_literal_named nm e = (l, e') \<Longrightarrow> literalsCache e nm' = Some n \<Longrightarrow>
   literalsCache e' nm' = Some n"
  by (auto simp: frozen_literal_named_def split: option.splits)

lemma import_bit_later:
  "import_bit pf um du b s = (l, s') \<Longrightarrow> later s s'"
  by (cases b)
     (auto simp: import_bit_def later_def frozen_literal_def literal_def Let_def
           split: prod.splits if_splits dest: frozen_literal_named_keeps)

lemma import_bit_wire:
  "import_bit pf um du (WireBit w off) s = (l, s') \<Longrightarrow>
   \<exists>k. l = Var k \<and> literalsCache (ez s') (bit_name pf w off) = Some k"
  by (auto simp: import_bit_def Let_def split: prod.splits dest: frozen_literal_named_cached)

lemma import_bit_const:
  "import_bit pf um du (ConstBit c) s = (l, s') \<Longrightarrow> \<not> (model_undef s \<and> du \<and> c = Sx) \<Longrightarrow>
   l = const_lit um c"
  by (auto simp: import_bit_def const_lit_def split: if_splits)

lemma import_bits_spec:
  "import_bits pf um du bits s = (ls, s') \<Longrightarrow>
     later s s' \<and> length ls = length bits \<and>
     (\<forall>i<length bits.
        (\<forall>w off. bits ! i = WireBit w off \<longrightarrow>
           (\<exists>k. ls ! i = Var k \<and> literalsCache (ez s') (bit_name pf w off) = Some k)) \<and>
        (\<forall>c. bits ! i = ConstBit c \<longrightarrow> \<not> (model_undef s \<and> du \<and> c = Sx) \<longrightarrow>
           ls ! i = const_lit um c))"
proof (induction bits arbitrary: s ls s')
  case Nil
  then show ?case by (simp add: later_refl)
next
  case (Cons b bits)
  obtain l s1 where b: "import_bit pf um du b s = (l, s1)" by (cases "import_bit pf um du b s")
  obtain ls1 s2 where r: "import_bits pf um du bits s1 = (ls1, s2)"
    by (cases "import_bits pf um du bits s1")
  from Cons.prems b r have eq: "ls = l # ls1" "s' = s2" by auto
  note ih = Cons.IH[OF r]
  have l1: "later s s1" by (rule import_bit_later[OF b])
  have l2: "later s1 s2" using ih by simp
  have mu: "model_undef s1 = model_undef s" using l1 by (simp add: later_def)
  show ?case
  proof (intro conjI allI impI)
    show "later s s'" using l1 l2 eq by (auto intro: later_trans)
    show "length ls = length (b # bits)" using ih eq by simp
  next
    fix i w off
    assume i: "i < length (b # bits)" and w: "(b # bits) ! i = WireBit w off"
    show "\<exists>k. ls ! i = Var k \<and> literalsCache (ez s') (bit_name pf w off) = Some k"
    proof (cases i)
      case 0
      with w have "b = WireBit w off" by simp
      with b obtain k where "l = Var k" "literalsCache (ez s1) (bit_name pf w off) = Some k"
        using import_bit_wire by blast
      with l2 eq 0 show ?thesis by (auto simp: later_def)
    next
      case (Suc j)
      with i w ih eq show ?thesis by auto
    qed
  next
    fix i c
    assume i: "i < length (b # bits)" and c: "(b # bits) ! i = ConstBit c"
      and nd: "\<not> (model_undef s \<and> du \<and> c = Sx)"
    show "ls ! i = const_lit um c"
    proof (cases i)
      case 0
      with c have "b = ConstBit c" by simp
      with b nd have "l = const_lit um c" using import_bit_const by blast
      with eq 0 show ?thesis by simp
    next
      case (Suc j)
      with i c nd ih eq mu show ?thesis by auto
    qed
  qed
qed

lemma import_bits_single:
  "import_bits pf um du [b] s = (ls, s') \<Longrightarrow> \<exists>l. ls = [l]"
  by (auto split: prod.splits)

lemma run_import_bits:
  assumes "run_import c s = Inr (v, s')"
  shows "call_timestep c \<noteq> 0 \<and> (call_undef c \<longrightarrow> model_undef s) \<and>
         import_bits (scope_pf s (call_undef c) (call_timestep c)) (call_undef c) (call_dup c)
           (map (sigmap s) (call_sig c)) s = (v, s')"
proof (cases c)
  case (ImportSigSpec sig t)
  with assms show ?thesis
    by (auto simp: importSigSpec_def importSigSpecWorker_def scope_pf_def split: if_splits)
next
  case (ImportDefSigSpec sig t)
  with assms show ?thesis
    by (auto simp: importDefSigSpec_def importSigSpecWorker_def scope_pf_def split: if_splits)
next
  case (ImportUndefSigSpec sig t)
  with assms show ?thesis
    by (auto simp: importUndefSigSpec_def importSigSpecWorker_def scope_pf_def split: if_splits)
next
  case (ImportSigBit b t)
  with assms show ?thesis
    by (auto simp: importSigBit_def importSigSpecWorker_def scope_pf_def single_def front_def
          split: if_splits prod.splits list.splits sum.splits)
next
  case (ImportDefSigBit b t)
  with assms show ?thesis
    by (auto simp: importDefSigBit_def importSigSpecWorker_def scope_pf_def single_def front_def
          split: if_splits prod.splits list.splits sum.splits)
next
  case (ImportUndefSigBit b t)
  with assms show ?thesis
    by (auto simp: importUndefSigBit_def importSigSpecWorker_def scope_pf_def single_def front_def
          split: if_splits prod.splits list.splits sum.splits)
qed

lemma run_import_later: "run_import c s = Inr (v, s') \<Longrightarrow> later s s'"
  using run_import_bits import_bits_spec by blast

lemma run_imports_later: "run_imports cs s = Inr s' \<Longrightarrow> later s s'"
proof (induction cs arbitrary: s)
  case Nil
  then show ?case by (simp add: later_refl)
next
  case (Cons c cs)
  then show ?case
    by (auto split: sum.splits prod.splits intro: later_trans dest: run_import_later)
qed

lemma import_stable:
  assumes r1: "run_import c1 s0 = Inr (v1, s1)"
    and l12: "later s1 s2"
    and r2: "run_import c2 s2 = Inr (v2, s3)"
    and t: "call_timestep c1 = call_timestep c2"
    and u: "call_undef c1 = call_undef c2"
    and i: "i < length (call_sig c1)" and j: "j < length (call_sig c2)"
    and b: "call_sig c1 ! i = call_sig c2 ! j"
    and nd: "\<not> (sigmap s0 (call_sig c1 ! i) = ConstBit Sx \<and> model_undef s0 \<and>
                 (call_dup c1 \<or> call_dup c2))"
  shows "v1 ! i = v2 ! j"
proof -
  let ?pf = "scope_pf s0 (call_undef c1) (call_timestep c1)"
  let ?B = "sigmap s0 (call_sig c1 ! i)"
  have l01: "later s0 s1" by (rule run_import_later[OF r1])
  have l02: "later s0 s2" by (rule later_trans[OF l01 l12])
  have l23: "later s2 s3" by (rule run_import_later[OF r2])
  have ctx: "sigmap s2 = sigmap s0" "prefix s2 = prefix s0" "model_undef s2 = model_undef s0"
    using l02 by (auto simp: later_def)
  have pf2: "scope_pf s2 (call_undef c2) (call_timestep c2) = ?pf"
    using ctx t u by (simp add: scope_pf_def)
  from run_import_bits[OF r1]
  have ib1: "import_bits ?pf (call_undef c1) (call_dup c1) (map (sigmap s0) (call_sig c1)) s0 = (v1, s1)"
    by simp
  from run_import_bits[OF r2] pf2 ctx u
  have ib2: "import_bits ?pf (call_undef c1) (call_dup c2) (map (sigmap s0) (call_sig c2)) s2 = (v2, s3)"
    by simp
  note sp1 = import_bits_spec[OF ib1]
  note sp2 = import_bits_spec[OF ib2]
  have Bi: "map (sigmap s0) (call_sig c1) ! i = ?B" using i by simp
  have Bj: "map (sigmap s0) (call_sig c2) ! j = ?B" using j b by simp
  show ?thesis
  proof (cases ?B)
    case (WireBit w off)
    from sp1 i Bi WireBit obtain k1 where
      k1: "v1 ! i = Var k1" "literalsCache (ez s1) (bit_name ?pf w off) = Some k1"
      by (metis length_map)
    from sp2 j Bj WireBit obtain k2 where
      k2: "v2 ! j = Var k2" "literalsCache (ez s3) (bit_name ?pf w off) = Some k2"
      by (metis length_map)
    from k1(2) l12 l23 have "literalsCache (ez s3) (bit_name ?pf w off) = Some k1"
      by (simp add: later_def)
    with k2 k1 show ?thesis by simp
  next
    case (ConstBit c)
    with nd have n1: "\<not> (model_undef s0 \<and> call_dup c1 \<and> c = Sx)"
      and n2: "\<not> (model_undef s2 \<and> call_dup c2 \<and> c = Sx)"
      using ctx by auto
    from sp1 i Bi ConstBit n1 have "v1 ! i = const_lit (call_undef c1) c" by (metis length_map)
    moreover from sp2 j Bj ConstBit n2 have "v2 ! j = const_lit (call_undef c1) c"
      by (metis length_map)
    ultimately show ?thesis by simp
  qed
qed


section \<open>Equality with undef\<close>

lemma eq_bits_loop_eq:
  "i \<le> n \<Longrightarrow> length vl = n \<Longrightarrow> length ul = n \<Longrightarrow> length vr = n \<Longrightarrow> length ur = n \<Longrightarrow>
   eq_bits_loop i n vl ul vr ur acc =
     Inr (acc @ map (\<lambda>k. eq_bit (vl ! k) (ul ! k) (vr ! k) (ur ! k)) [i..<n])"
proof (induction i n vl ul vr ur acc rule: eq_bits_loop.induct)
  case (1 i n vl ul vr ur acc)
  show ?case
  proof (cases "i < n")
    case True
    have "eq_bits_loop i n vl ul vr ur acc =
        eq_bits_loop (Suc i) n vl ul vr ur (acc @ [eq_bit (vl ! i) (ul ! i) (vr ! i) (ur ! i)])"
      using True "1.prems" by (subst eq_bits_loop.simps) simp
    also have "\<dots> = Inr ((acc @ [eq_bit (vl ! i) (ul ! i) (vr ! i) (ur ! i)]) @
        map (\<lambda>k. eq_bit (vl ! k) (ul ! k) (vr ! k) (ur ! k)) [Suc i..<n])"
      using True "1.prems" by (intro "1.IH") auto
    finally show ?thesis using True by (simp add: upt_conv_Cons)
  next
    case False
    with "1.prems" have "i = n" by simp
    then show ?thesis by (subst eq_bits_loop.simps) simp
  qed
qed

lemma run_import_total:
  assumes "call_timestep c \<noteq> 0" "call_undef c \<longrightarrow> model_undef s"
  shows "\<exists>v s'. run_import c s = Inr (v, s') \<and> length v = length (call_sig c)"
proof -
  obtain v s' where ib:
    "import_bits (scope_pf s (call_undef c) (call_timestep c)) (call_undef c) (call_dup c)
           (map (sigmap s) (call_sig c)) s = (v, s')"
    by (cases "import_bits (scope_pf s (call_undef c) (call_timestep c)) (call_undef c) (call_dup c)
           (map (sigmap s) (call_sig c)) s")
  have len: "length v = length (call_sig c)" using import_bits_spec[OF ib] by simp
  have "run_import c s = Inr (v, s')"
  proof (cases c)
    case (ImportSigSpec sig t)
    with assms ib show ?thesis
      by (simp add: importSigSpec_def importSigSpecWorker_def scope_pf_def)
  next
    case (ImportDefSigSpec sig t)
    with assms ib show ?thesis
      by (simp add: importDefSigSpec_def importSigSpecWorker_def scope_pf_def)
  next
    case (ImportUndefSigSpec sig t)
    with assms ib show ?thesis
      by (simp add: importUndefSigSpec_def importSigSpecWorker_def scope_pf_def)
  next
    case (ImportSigBit b t)
    with len obtain l where "v = [l]" by (cases v) auto
    with ImportSigBit assms ib show ?thesis
      by (simp add: importSigBit_def importSigSpecWorker_def scope_pf_def single_def front_def)
  next
    case (ImportDefSigBit b t)
    with len obtain l where "v = [l]" by (cases v) auto
    with ImportDefSigBit assms ib show ?thesis
      by (simp add: importDefSigBit_def importSigSpecWorker_def scope_pf_def single_def front_def)
  next
    case (ImportUndefSigBit b t)
    with len obtain l where "v = [l]" by (cases v) auto
    with ImportUndefSigBit assms ib show ?thesis
      by (simp add: importUndefSigBit_def importSigSpecWorker_def scope_pf_def single_def front_def)
  qed
  with len show ?thesis by blast
qed

lemma signals_eq_unfold:
  assumes len: "length lhs = length rhs"
    and tl: "t_lhs \<noteq> 0" and tr: "effective_rhs t_lhs t_rhs \<noteq> 0"
  shows "\<exists>vl s1 vr s2.
           importSigSpec lhs t_lhs s = Inr (vl, s1) \<and>
           importSigSpec rhs (effective_rhs t_lhs t_rhs) s1 = Inr (vr, s2) \<and>
           length vl = length lhs \<and> length vr = length lhs \<and>
           (if model_undef s then
              (\<exists>ul s3 ur s4.
                  importUndefSigSpec lhs t_lhs s2 = Inr (ul, s3) \<and>
                  importUndefSigSpec rhs (effective_rhs t_lhs t_rhs) s3 = Inr (ur, s4) \<and>
                  length ul = length lhs \<and> length ur = length lhs \<and>
                  signals_eq lhs rhs t_lhs t_rhs s =
                    Inr (OpAnd (map (\<lambda>k. eq_bit (vl ! k) (ul ! k) (vr ! k) (ur ! k))
                                  [0..<length lhs]), s4))
            else signals_eq lhs rhs t_lhs t_rhs s = Inr (OpAnd (map2 IFF vl vr), s2))"
proof -
  let ?tr = "effective_rhs t_lhs t_rhs"
  from run_import_total[of "ImportSigSpec lhs t_lhs" s] tl
  obtain vl s1 where i1: "importSigSpec lhs t_lhs s = Inr (vl, s1)" and l1: "length vl = length lhs"
    by auto
  from run_import_total[of "ImportSigSpec rhs ?tr" s1] tr len
  obtain vr s2 where i2: "importSigSpec rhs ?tr s1 = Inr (vr, s2)" and l2: "length vr = length lhs"
    by auto
  have la: "later s s1" using run_import_later[of "ImportSigSpec lhs t_lhs" s vl s1] i1 by simp
  have lb: "later s1 s2" using run_import_later[of "ImportSigSpec rhs ?tr" s1 vr s2] i2 by simp
  have mu2: "model_undef s2 = model_undef s" using la lb by (simp add: later_def)
  show ?thesis
  proof (cases "model_undef s")
    case False
    have "signals_eq lhs rhs t_lhs t_rhs s = Inr (OpAnd (map2 IFF vl vr), s2)"
      using False len i1 i2 mu2 l1 l2
      by (simp add: signals_eq_def effective_rhs_def[symmetric] Let_def vec_eq_def vec_iff_def)
    with False i1 i2 l1 l2 show ?thesis by auto
  next
    case True
    from run_import_total[of "ImportUndefSigSpec lhs t_lhs" s2] tl True mu2
    obtain ul s3 where i3: "importUndefSigSpec lhs t_lhs s2 = Inr (ul, s3)"
      and l3: "length ul = length lhs" by auto
    have lc: "later s2 s3"
      using run_import_later[of "ImportUndefSigSpec lhs t_lhs" s2 ul s3] i3 by simp
    have mu3: "model_undef s3" using lc mu2 True by (simp add: later_def)
    from run_import_total[of "ImportUndefSigSpec rhs ?tr" s3] tr mu3 len
    obtain ur s4 where i4: "importUndefSigSpec rhs ?tr s3 = Inr (ur, s4)"
      and l4: "length ur = length lhs" by auto
    have loop: "eq_bits_loop 0 (length lhs) vl ul vr ur [] =
        Inr (map (\<lambda>k. eq_bit (vl ! k) (ul ! k) (vr ! k) (ur ! k)) [0..<length lhs])"
      using eq_bits_loop_eq[of 0 "length lhs" vl ul vr ur "[]"] l1 l2 l3 l4 by simp
    have "signals_eq lhs rhs t_lhs t_rhs s =
        Inr (OpAnd (map (\<lambda>k. eq_bit (vl ! k) (ul ! k) (vr ! k) (ur ! k)) [0..<length lhs]), s4)"
      using True len i1 i2 i3 i4 mu2 loop
      by (simp add: signals_eq_def effective_rhs_def[symmetric] Let_def)
    with True i1 i2 i3 i4 l1 l2 l3 l4 show ?thesis by auto
  qed
qed

lemma reimport_same:
  assumes r1: "run_import c s0 = Inr (v1, s1)" and l: "later s1 s2"
    and r2: "run_import c s2 = Inr (v2, s3)" and nd: "\<not> call_dup c"
  shows "v2 = v1"
proof (rule nth_equalityI)
  have n1: "length v1 = length (call_sig c)"
    using import_bits_spec run_import_bits[OF r1] by fastforce
  have n2: "length v2 = length (call_sig c)"
    using import_bits_spec run_import_bits[OF r2] by fastforce
  show "length v2 = length v1" using n1 n2 by simp
  fix i assume "i < length v2"
  then have i: "i < length (call_sig c)" using n2 by simp
  show "v2 ! i = v1 ! i"
    using import_stable[OF r1 l r2 refl refl i i refl] nd by simp
qed

lemma eval_eq_bits:
  "eval v (OpAnd (map (\<lambda>k. eq_bit (vl ! k) (ul ! k) (vr ! k) (ur ! k)) [0..<n])) =
     (\<forall>k<n. eval v (ul ! k) = eval v (ur ! k) \<and>
             (eval v (vl ! k) \<or> eval v (ul ! k)) = (eval v (vr ! k) \<or> eval v (ur ! k)))"
  by (auto simp: list_all_length eq_bit_def)

lemma eval_vec_eq:
  "length vl = n \<Longrightarrow> length vr = n \<Longrightarrow>
   eval v (OpAnd (map2 IFF vl vr)) = (\<forall>k<n. eval v (vl ! k) = eval v (vr ! k))"
  by (auto simp: list_all_length)

lemma effective_rhs_swap:
  assumes "t_rhs = t_lhs \<or> (0 < t_lhs \<and> 0 < t_rhs)"
  shows "effective_rhs t_lhs t_rhs = t_rhs" "effective_rhs t_rhs t_lhs = t_lhs"
  using assms by (auto simp: effective_rhs_def)


section \<open>Single-bit imports and evaluation of the definitions\<close>

lemma import_one:
  assumes "call_timestep c \<noteq> 0" "call_undef c \<longrightarrow> model_undef s" "length (call_sig c) = 1"
  shows "\<exists>l s'. run_import c s = Inr ([l], s') \<and> later s s'"
proof -
  from run_import_total[OF assms(1,2)] obtain v s' where
    r: "run_import c s = Inr (v, s')" and n: "length v = length (call_sig c)" by blast
  from n assms(3) obtain l where "v = [l]" by (cases v) auto
  with r run_import_later[OF r] show ?thesis by blast
qed

lemmas import_defs =
  importSigSpec_def importDefSigSpec_def importUndefSigSpec_def importSigBit_def
  importDefSigBit_def importUndefSigBit_def importSigSpecWorker_def import_bit_def
  frozen_literal_named_def frozen_literal_def literal_def record_import_def bit_name_def
  timestep_pf_def stringf_d_def log_id_def ID_def front_def single_def session_def
  SatGen_new_def ez_init_def Let_def result_of_def state_after_def
  wire_a_def wire_b_def wire_d_def new_wire_def

lemma run_imports_total:
  "list_all (call_ok (model_undef s)) cs \<Longrightarrow> \<exists>s'. run_imports cs s = Inr s'"
proof (induction cs arbitrary: s)
  case Nil
  then show ?case by simp
next
  case (Cons c cs)
  from Cons.prems have ok: "call_timestep c \<noteq> 0" "call_undef c \<longrightarrow> model_undef s"
    by (simp_all add: call_ok_def)
  from run_import_total[OF ok] obtain v s1 where r: "run_import c s = Inr (v, s1)" by blast
  have "model_undef s1 = model_undef s" using run_import_later[OF r] by (simp add: later_def)
  with Cons.prems have "list_all (call_ok (model_undef s1)) cs" by simp
  from Cons.IH[OF this] r show ?case by simp
qed


section \<open>Sharing undefined constants\<close>



lemma constrain_chunks_wire_zero:
  "wire_map w wr = Some wr' \<Longrightarrow>
   constrain_chunks (ChunkWire wr off 0 # cs) a b w = constrain_chunks cs a b w"
  by simp











lemma list_ex_map_same: "(\<And>x. P (f x) = P x) \<Longrightarrow> list_ex P (map f xs) = list_ex P xs"
  by (induction xs) auto

lemma has_cell_setPort_in [simp]:
  "has_cell (setPort_in nm p sig m) n t = has_cell m n t"
  unfolding has_cell_def setPort_in_def
  by (simp, rule list_ex_map_same) (simp add: setPort_def)









section \<open>The loops of the miter construction\<close>











section \<open>Shadows of signals, and when the construction returns\<close>
















section \<open>The shadow wires\<close>










section \<open>Properties of the encoder session\<close>

text \<open>
  Claim C1, literal stability. Imports that meet the contract of their entry points
  return, and two imports of the same bit under the same scope (prefix, timestep, undef
  namespace) return the same literal, whatever was imported in between and whichever
  entry point is used, except for a constant X imported through a definition import
  while undef modelling is on: that bit gets a fresh literal each time.
\<close>

theorem import_literal_stable:
  assumes ok1: "call_ok (model_undef s0) c1"
    and oks: "list_all (call_ok (model_undef s0)) cs"
    and ok2: "call_ok (model_undef s0) c2"
    and t: "call_timestep c1 = call_timestep c2"
    and u: "call_undef c1 = call_undef c2"
    and i: "i < length (call_sig c1)" and j: "j < length (call_sig c2)"
    and b: "call_sig c1 ! i = call_sig c2 ! j"
    and nd: "\<not> (sigmap s0 (call_sig c1 ! i) = ConstBit Sx \<and> model_undef s0 \<and>
                 (call_dup c1 \<or> call_dup c2))"
  shows "\<exists>v1 s1 s2 v2 s3.
           run_import c1 s0 = Inr (v1, s1) \<and> run_imports cs s1 = Inr s2 \<and>
           run_import c2 s2 = Inr (v2, s3) \<and> v1 ! i = v2 ! j"
proof -
  from ok1 run_import_total[of c1 s0] obtain v1 s1 where r1: "run_import c1 s0 = Inr (v1, s1)"
    by (auto simp: call_ok_def)
  have m1: "model_undef s1 = model_undef s0" using run_import_later[OF r1] by (simp add: later_def)
  from oks m1 run_imports_total[of s1 cs] obtain s2 where rs: "run_imports cs s1 = Inr s2"
    by auto
  have l12: "later s1 s2" by (rule run_imports_later[OF rs])
  have m2: "model_undef s2 = model_undef s0" using l12 m1 by (simp add: later_def)
  from ok2 m2 run_import_total[of c2 s2] obtain v2 s3 where r2: "run_import c2 s2 = Inr (v2, s3)"
    by (auto simp: call_ok_def)
  have "v1 ! i = v2 ! j" by (rule import_stable[OF r1 l12 r2 t u i j b nd])
  with r1 rs r2 show ?thesis by blast
qed

text \<open>
  C1 as worded, for every bit, fails on the constant X: two definition imports of it in
  one session give two different literals.
\<close>

theorem import_literal_stable_counterexample:
  "result_of (importDefSigSpec [ConstBit Sx] (-1) (session True)) = Some [Var 1]
   \<and> result_of (importDefSigSpec [ConstBit Sx] (-1)
        (state_after (importDefSigSpec [ConstBit Sx] (-1) (session True)) (session True))) =
     Some [Var 2]
   \<and> Var 1 \<noteq> Var 2"
  by (simp add: import_defs)

text \<open>
  C1 at work: a vector import of two wires, an import of the second wire in between,
  then a single-bit import of the first wire.
\<close>

theorem import_literal_stable_witness:
  "\<exists>v1 s1 s2 v2 s3.
     run_import (ImportSigSpec [WireBit wire_a 0, WireBit wire_b 0] (-1)) (session False) = Inr (v1, s1) \<and>
     run_imports [ImportSigSpec [WireBit wire_b 0] (-1)] s1 = Inr s2 \<and>
     run_import (ImportSigBit (WireBit wire_a 0) (-1)) s2 = Inr (v2, s3) \<and>
     v1 ! 0 = v2 ! 0"
  by (rule import_literal_stable) (simp_all add: call_ok_def session_def SatGen_new_def)

text \<open>
  Claim C3, the multiplexer with undef. For operands of one length and undef modelling
  on, the value result selects b where the select holds and a otherwise. The undef
  result, where the select is undefined, is set wherever the two values differ or either
  operand is undefined; where the select is defined it is the undef flag of the selected
  operand.
\<close>

theorem mux_undef:
  assumes "length b = length a" "length undef_a = length a" "length undef_b = length a"
    and "model_undef s"
  shows "\<exists>res undef_res.
           mux sel undef_s a undef_a b undef_b s = Inr (res, undef_res) \<and>
           length res = length a \<and> length undef_res = length a \<and>
           (\<forall>i<length a. \<forall>v.
              eval v (res ! i) = (if eval v sel then eval v (b ! i) else eval v (a ! i)) \<and>
              eval v (undef_res ! i) =
                (if eval v undef_s
                 then eval v (a ! i) \<noteq> eval v (b ! i) \<or> eval v (undef_a ! i) \<or> eval v (undef_b ! i)
                 else if eval v sel then eval v (undef_b ! i) else eval v (undef_a ! i)))"
  unfolding mux_eq[OF assms(1-3)] using assms by auto

text \<open>
  C3 as worded has the result undefined, under an undefined select, exactly where values
  or undef flags disagree. With both operands undefined and of equal value the flags
  agree, and the result is undefined all the same.
\<close>

theorem mux_undef_counterexample:
  "mux (Var 1) CONST_TRUE [Var 2] [CONST_TRUE] [Var 2] [CONST_TRUE] (session True) =
     Inr ([ITE (Var 1) (Var 2) (Var 2)],
          [ITE CONST_TRUE (OR (NOT (IFF (Var 2) (Var 2))) (OR CONST_TRUE CONST_TRUE))
             (ITE (Var 1) CONST_TRUE CONST_TRUE)])
   \<and> eval all_false
        (ITE CONST_TRUE (OR (NOT (IFF (Var 2) (Var 2))) (OR CONST_TRUE CONST_TRUE))
           (ITE (Var 1) CONST_TRUE CONST_TRUE)) = True
   \<and> claimed_mux_undef (eval all_false (Var 1)) (eval all_false CONST_TRUE)
        (eval all_false (Var 2)) (eval all_false CONST_TRUE)
        (eval all_false (Var 2)) (eval all_false CONST_TRUE) = False"
  by (simp add: mux_def vec_ite_def vec_iff_def vec_or_def vec_not_def session_def
      SatGen_new_def claimed_mux_undef_def all_false_def)

theorem mux_undef_witness:
  "\<exists>res undef_res.
     mux (Var 1) (Var 2) [Var 3] [Var 5] [Var 4] [Var 6] (session True) = Inr (res, undef_res) \<and>
     length res = length [Var 3] \<and> length undef_res = length [Var 3] \<and>
     (\<forall>i<length [Var 3]. \<forall>v.
        eval v (res ! i) = (if eval v (Var 1) then eval v ([Var 4] ! i) else eval v ([Var 3] ! i)) \<and>
        eval v (undef_res ! i) =
          (if eval v (Var 2)
           then eval v ([Var 3] ! i) \<noteq> eval v ([Var 4] ! i) \<or> eval v ([Var 5] ! i) \<or>
                eval v ([Var 6] ! i)
           else if eval v (Var 1) then eval v ([Var 6] ! i) else eval v ([Var 5] ! i)))"
  by (rule mux_undef) (simp_all add: session_def SatGen_new_def)

text \<open>
  Claim C4, length contracts and undef gating. Equality refuses operands of different
  lengths. Gating refuses value vectors of different lengths and an indicator longer than
  the values; an indicator shorter than the values is accepted, and the values are cut to
  its length. What gating assumes holds exactly when, at every indicator position where
  the indicator is false, the two values agree. The single-bit form assumes the same of
  its three literals.
\<close>

theorem undefGating_contract:
  assumes "model_undef s"
  shows "(length lhs \<noteq> length rhs \<longrightarrow> signals_eq lhs rhs t_lhs t_rhs s0 = Inl AssertionFailure) \<and>
         (length y \<noteq> length yy \<longrightarrow> undefGating y yy u s = Inl AssertionFailure) \<and>
         (length y = length yy \<and> length y < length u \<longrightarrow>
            undefGating y yy u s = Inl AssertionFailure) \<and>
         (length y = length yy \<and> length u \<le> length y \<longrightarrow>
            (\<exists>c. undefGating y yy u s = Inr (s\<lparr>ez := assume_ez c (ez s)\<rparr>) \<and>
                 (\<forall>v. eval v c =
                    (\<forall>i<length u. \<not> eval v (u ! i) \<longrightarrow> eval v (y ! i) = eval v (yy ! i))))) \<and>
         (\<exists>c. undefGating_bit b bb ub s = s\<lparr>ez := assume_ez c (ez s)\<rparr> \<and>
              (\<forall>v. eval v c = (\<not> eval v ub \<longrightarrow> eval v b = eval v bb)))"
proof (intro conjI impI)
  assume "length lhs \<noteq> length rhs"
  then show "signals_eq lhs rhs t_lhs t_rhs s0 = Inl AssertionFailure"
    by (simp add: signals_eq_def Let_def)
next
  assume "length y \<noteq> length yy"
  then show "undefGating y yy u s = Inl AssertionFailure"
    using assms by (simp add: undefGating_def)
next
  assume "length y = length yy \<and> length y < length u"
  then show "undefGating y yy u s = Inl AssertionFailure"
    using assms by (simp add: undefGating_def)
next
  assume a: "length y = length yy \<and> length u \<le> length y"
  let ?n = "length u"
  let ?c = "OpAnd (map2 OR u (map2 IFF (take ?n y) (take ?n yy)))"
  have g: "gating_constraint (take ?n y) (take ?n yy) u = Inr ?c"
    using a by (intro gating_constraint_eq) auto
  have r: "undefGating y yy u s = Inr (s\<lparr>ez := assume_ez ?c (ez s)\<rparr>)"
  proof (cases "length y > length u")
    case True
    then show ?thesis using a assms g by (simp add: undefGating_def Let_def)
  next
    case False
    with a have e: "length y = length u" "length yy = length u" by auto
    then show ?thesis using assms g by (simp add: undefGating_def)
  qed
  have "eval v ?c = (\<forall>i<length u. \<not> eval v (u ! i) \<longrightarrow> eval v (y ! i) = eval v (yy ! i))" for v
    using a by (subst eval_OpAnd_map2_OR_IFF[where n = ?n]) auto
  with r show "\<exists>c. undefGating y yy u s = Inr (s\<lparr>ez := assume_ez c (ez s)\<rparr>) \<and>
                 (\<forall>v. eval v c =
                    (\<forall>i<length u. \<not> eval v (u ! i) \<longrightarrow> eval v (y ! i) = eval v (yy ! i)))"
    by blast
next
  show "\<exists>c. undefGating_bit b bb ub s = s\<lparr>ez := assume_ez c (ez s)\<rparr> \<and>
              (\<forall>v. eval v c = (\<not> eval v ub \<longrightarrow> eval v b = eval v bb))"
    by (rule exI[of _ "OR ub (IFF b bb)"]) (auto simp: undefGating_bit_def)
qed

text \<open>
  C4 as worded makes every length mismatch fatal. Two value bits against one indicator
  bit is not: gating constrains the first position and returns.
\<close>

theorem undefGating_counterexample:
  "undefGating [Var 1, Var 2] [Var 3, Var 4] [Var 5] (session True) =
     Inr ((session True)\<lparr>ez := assume_ez (OpAnd [OR (Var 5) (IFF (Var 1) (Var 3))]) (ez (session True))\<rparr>)
   \<and> length [Var 1, Var 2] \<noteq> length [Var 5]"
  by (simp add: undefGating_def gating_constraint_def vec_iff_def vec_or_def session_def
      SatGen_new_def Let_def)

theorem undefGating_contract_witness:
  "\<exists>c. undefGating [Var 1] [Var 2] [Var 3] (session True) =
          Inr ((session True)\<lparr>ez := assume_ez c (ez (session True))\<rparr>) \<and>
        (\<forall>v. eval v c =
           (\<forall>i<length [Var 3]. \<not> eval v ([Var 3] ! i) \<longrightarrow> eval v ([Var 1] ! i) = eval v ([Var 2] ! i)))"
proof -
  have mu: "model_undef (session True)" by (simp add: session_def SatGen_new_def)
  from undefGating_contract[OF mu, of "[]" "[]" 1 1 "session True" "[Var 1]" "[Var 2]" "[Var 3]"]
  show ?thesis by simp
qed

text \<open>
  Claim C5, the query for an imported bit. For a timestep other than 0 the query answers
  whether the bit has a cached literal under the scope. It leaves the solver, the context
  and every cached literal as they were; the one change it can make is to enter an empty
  table for a scope that had none, and with a table present the state is unchanged.
\<close>

theorem importedSigBit_lookup:
  assumes "timestep \<noteq> 0"
  shows "\<exists>s'. importedSigBit b timestep s =
                Inr (cached s (prefix s @ timestep_pf timestep) b \<noteq> None, s') \<and>
              s' = s\<lparr>imported_signals := imported_signals s'\<rparr> \<and>
              (\<forall>pf b'. cached s' pf b' = cached s pf b') \<and>
              (imported_signals s (prefix s @ timestep_pf timestep) \<noteq> None \<longrightarrow> s' = s) \<and>
              (imported_signals s (prefix s @ timestep_pf timestep) = None \<longrightarrow>
                 imported_signals s' =
                   (imported_signals s)(prefix s @ timestep_pf timestep \<mapsto> Map.empty))"
  using assms
  by (cases "imported_signals s (prefix s @ timestep_pf timestep)")
     (auto simp: importedSigBit_def cached_def Let_def)

text \<open>
  C5 as worded leaves the cache untouched. A query in a fresh session enters the scope
  into the cache.
\<close>

theorem importedSigBit_lookup_counterexample:
  "result_of (importedSigBit (WireBit wire_a 0) (-1) (session False)) = Some False
   \<and> imported_signals (session False) [] = None
   \<and> imported_signals
       (state_after (importedSigBit (WireBit wire_a 0) (-1) (session False)) (session False)) []
     \<noteq> None"
  by (simp add: importedSigBit_def import_defs)

theorem importedSigBit_lookup_witness:
  "\<exists>s'. importedSigBit (WireBit wire_a 0) (-1) (session False) =
          Inr (cached (session False) (prefix (session False) @ timestep_pf (-1)) (WireBit wire_a 0) \<noteq> None, s') \<and>
        s' = (session False)\<lparr>imported_signals := imported_signals s'\<rparr> \<and>
        (\<forall>pf b'. cached s' pf b' = cached (session False) pf b')"
  using importedSigBit_lookup[of "-1" "WireBit wire_a 0" "session False"] by auto

text \<open>
  Claim C6, symmetry of equality with undef. For operands of one length and timesteps
  that are equal and not 0, or both positive, the formula of signals_eq(a, b) and the
  formula of signals_eq(b, a) with the timesteps swapped, built in the same session, have
  the same value under every assignment. With undef modelling on, the formula holds
  exactly when at every position the undef flags agree and value-or-undef agrees; with it
  off, exactly when the values agree.
\<close>

theorem signals_eq_symmetric:
  assumes len: "length lhs = length rhs"
    and tl: "t_lhs \<noteq> 0"
    and ts: "t_rhs = t_lhs \<or> (0 < t_lhs \<and> 0 < t_rhs)"
  shows "\<exists>vl a1 vr a2 e1 s1 e2 s2.
           importSigSpec lhs t_lhs s = Inr (vl, a1) \<and>
           importSigSpec rhs t_rhs a1 = Inr (vr, a2) \<and>
           signals_eq lhs rhs t_lhs t_rhs s = Inr (e1, s1) \<and>
           signals_eq rhs lhs t_rhs t_lhs s1 = Inr (e2, s2) \<and>
           (\<forall>v. eval v e1 = eval v e2) \<and>
           (if model_undef s then
              (\<exists>ul a3 ur.
                 importUndefSigSpec lhs t_lhs a2 = Inr (ul, a3) \<and>
                 importUndefSigSpec rhs t_rhs a3 = Inr (ur, s1) \<and>
                 (\<forall>v. eval v e1 =
                    (\<forall>k<length lhs.
                       eval v (ul ! k) = eval v (ur ! k) \<and>
                       (eval v (vl ! k) \<or> eval v (ul ! k)) =
                         (eval v (vr ! k) \<or> eval v (ur ! k)))))
            else s1 = a2 \<and>
                 (\<forall>v. eval v e1 = (\<forall>k<length lhs. eval v (vl ! k) = eval v (vr ! k))))"
proof -
  note er = effective_rhs_swap[OF ts]
  have tr: "t_rhs \<noteq> 0" using tl ts by auto
  note u1 = signals_eq_unfold[OF len tl, of t_rhs s, unfolded er]
  from u1[OF tr] obtain vl a1 vr a2 where
    i1: "importSigSpec lhs t_lhs s = Inr (vl, a1)" and
    i2: "importSigSpec rhs t_rhs a1 = Inr (vr, a2)" and
    l1: "length vl = length lhs" and l2: "length vr = length lhs" and
    rest1: "if model_undef s then
              (\<exists>ul s3 ur s4.
                  importUndefSigSpec lhs t_lhs a2 = Inr (ul, s3) \<and>
                  importUndefSigSpec rhs t_rhs s3 = Inr (ur, s4) \<and>
                  length ul = length lhs \<and> length ur = length lhs \<and>
                  signals_eq lhs rhs t_lhs t_rhs s =
                    Inr (OpAnd (map (\<lambda>k. eq_bit (vl ! k) (ul ! k) (vr ! k) (ur ! k))
                                  [0..<length lhs]), s4))
            else signals_eq lhs rhs t_lhs t_rhs s = Inr (OpAnd (map2 IFF vl vr), a2)"
    by blast
  have r1: "run_import (ImportSigSpec lhs t_lhs) s = Inr (vl, a1)" using i1 by simp
  have r2: "run_import (ImportSigSpec rhs t_rhs) a1 = Inr (vr, a2)" using i2 by simp
  have la1: "later s a1" by (rule run_import_later[OF r1])
  have la2: "later a1 a2" by (rule run_import_later[OF r2])
  show ?thesis
  proof (cases "model_undef s")
    case False
    with rest1 have e1: "signals_eq lhs rhs t_lhs t_rhs s = Inr (OpAnd (map2 IFF vl vr), a2)"
      by simp
    have mu: "\<not> model_undef a2" using False la1 la2 by (simp add: later_def)
    note u2 = signals_eq_unfold[OF len[symmetric] tr, of t_lhs a2, unfolded er]
    from u2[OF tl] mu obtain vl' b1 vr' b2 where
      j1: "importSigSpec rhs t_rhs a2 = Inr (vl', b1)" and
      j2: "importSigSpec lhs t_lhs b1 = Inr (vr', b2)" and
      e2: "signals_eq rhs lhs t_rhs t_lhs a2 = Inr (OpAnd (map2 IFF vl' vr'), b2)"
      by auto
    have q1: "run_import (ImportSigSpec rhs t_rhs) a2 = Inr (vl', b1)" using j1 by simp
    have q2: "run_import (ImportSigSpec lhs t_lhs) b1 = Inr (vr', b2)" using j2 by simp
    have lb1: "later a2 b1" by (rule run_import_later[OF q1])
    have v1: "vl' = vr" by (rule reimport_same[OF r2 later_refl q1]) simp
    have v2: "vr' = vl" by (rule reimport_same[OF r1 later_trans[OF la2 lb1] q2]) simp
    have sem1: "eval v (OpAnd (map2 IFF vl vr)) = (\<forall>k<length lhs. eval v (vl ! k) = eval v (vr ! k))"
      for v using eval_vec_eq[OF l1 l2] by simp
    have sem2: "eval v (OpAnd (map2 IFF vr vl)) = (\<forall>k<length lhs. eval v (vr ! k) = eval v (vl ! k))"
      for v using eval_vec_eq[OF l2 l1] by simp
    have sym: "\<forall>v. eval v (OpAnd (map2 IFF vl vr)) = eval v (OpAnd (map2 IFF vl' vr'))"
      unfolding v1 v2 sem1 sem2 by auto
    show ?thesis
      using False i1 i2 e1 e2 sym sem1 by auto
  next
    case True
    with rest1 obtain ul a3 ur a4 where
      i3: "importUndefSigSpec lhs t_lhs a2 = Inr (ul, a3)" and
      i4: "importUndefSigSpec rhs t_rhs a3 = Inr (ur, a4)" and
      e1: "signals_eq lhs rhs t_lhs t_rhs s =
             Inr (OpAnd (map (\<lambda>k. eq_bit (vl ! k) (ul ! k) (vr ! k) (ur ! k)) [0..<length lhs]), a4)"
      by auto
    have r3: "run_import (ImportUndefSigSpec lhs t_lhs) a2 = Inr (ul, a3)" using i3 by simp
    have r4: "run_import (ImportUndefSigSpec rhs t_rhs) a3 = Inr (ur, a4)" using i4 by simp
    have la3: "later a2 a3" by (rule run_import_later[OF r3])
    have la4: "later a3 a4" by (rule run_import_later[OF r4])
    have mu: "model_undef a4" using True la1 la2 la3 la4 by (simp add: later_def)
    note u2 = signals_eq_unfold[OF len[symmetric] tr, of t_lhs a4, unfolded er]
    from u2[OF tl] mu obtain vl' b1 vr' b2 ul' b3 ur' b4 where
      j1: "importSigSpec rhs t_rhs a4 = Inr (vl', b1)" and
      j2: "importSigSpec lhs t_lhs b1 = Inr (vr', b2)" and
      j3: "importUndefSigSpec rhs t_rhs b2 = Inr (ul', b3)" and
      j4: "importUndefSigSpec lhs t_lhs b3 = Inr (ur', b4)" and
      e2: "signals_eq rhs lhs t_rhs t_lhs a4 =
             Inr (OpAnd (map (\<lambda>k. eq_bit (vl' ! k) (ul' ! k) (vr' ! k) (ur' ! k)) [0..<length rhs]), b4)"
      by auto
    have q1: "run_import (ImportSigSpec rhs t_rhs) a4 = Inr (vl', b1)" using j1 by simp
    have q2: "run_import (ImportSigSpec lhs t_lhs) b1 = Inr (vr', b2)" using j2 by simp
    have q3: "run_import (ImportUndefSigSpec rhs t_rhs) b2 = Inr (ul', b3)" using j3 by simp
    have q4: "run_import (ImportUndefSigSpec lhs t_lhs) b3 = Inr (ur', b4)" using j4 by simp
    have lb1: "later a4 b1" by (rule run_import_later[OF q1])
    have lb2: "later b1 b2" by (rule run_import_later[OF q2])
    have lb3: "later b2 b3" by (rule run_import_later[OF q3])
    have a24: "later a2 a4" by (rule later_trans[OF la3 la4])
    have v1: "vl' = vr" by (rule reimport_same[OF r2 a24 q1]) simp
    have v2: "vr' = vl"
      by (rule reimport_same[OF r1 later_trans[OF la2 later_trans[OF a24 lb1]] q2]) simp
    have v3: "ul' = ur"
      by (rule reimport_same[OF r4 later_trans[OF lb1 lb2] q3]) simp
    have v4: "ur' = ul"
      by (rule reimport_same[OF r3 later_trans[OF la4 later_trans[OF lb1 later_trans[OF lb2 lb3]]] q4])
         simp
    have sym: "\<forall>v. eval v (OpAnd (map (\<lambda>k. eq_bit (vl ! k) (ul ! k) (vr ! k) (ur ! k)) [0..<length lhs]))
         = eval v (OpAnd (map (\<lambda>k. eq_bit (vl' ! k) (ul' ! k) (vr' ! k) (ur' ! k)) [0..<length rhs]))"
      unfolding v1 v2 v3 v4 eval_eq_bits len by auto
    show ?thesis
      using True i1 i2 i3 i4 e1 e2 sym eval_eq_bits by auto
  qed
qed

text \<open>
  C6 as worded is for every pair of timesteps. A negative right timestep stands for the
  left one, so with timesteps -1 and 5 the swapped call compares both operands at 5, and
  the two formulas differ.
\<close>

theorem signals_eq_symmetric_counterexample:
  "result_of (signals_eq [WireBit wire_a 0] [WireBit wire_b 0] (-1) 5 (session True)) =
     Some (OpAnd [eq_bit (Var 1) (Var 3) (Var 2) (Var 4)])
   \<and> result_of (signals_eq [WireBit wire_b 0] [WireBit wire_a 0] 5 (-1)
        (state_after (signals_eq [WireBit wire_a 0] [WireBit wire_b 0] (-1) 5 (session True))
           (session True))) =
     Some (OpAnd [eq_bit (Var 2) (Var 4) (Var 5) (Var 6)])
   \<and> eval (only_var 5) (OpAnd [eq_bit (Var 1) (Var 3) (Var 2) (Var 4)]) \<noteq>
     eval (only_var 5) (OpAnd [eq_bit (Var 2) (Var 4) (Var 5) (Var 6)])"
  by (simp add: signals_eq_def import_defs dec_nat.simps eq_bits_loop.simps eq_bit_def
      only_var_def)

theorem signals_eq_symmetric_witness:
  "\<exists>vl a1 vr a2 e1 s1 e2 s2.
     importSigSpec [WireBit wire_a 0] 1 (session True) = Inr (vl, a1) \<and>
     importSigSpec [WireBit wire_b 0] 2 a1 = Inr (vr, a2) \<and>
     signals_eq [WireBit wire_a 0] [WireBit wire_b 0] 1 2 (session True) = Inr (e1, s1) \<and>
     signals_eq [WireBit wire_b 0] [WireBit wire_a 0] 2 1 s1 = Inr (e2, s2) \<and>
     (\<forall>v. eval v e1 = eval v e2)"
proof -
  have "length [WireBit wire_a 0] = length [WireBit wire_b 0]" by simp
  moreover have "(1::int) \<noteq> 0" by simp
  moreover have "(2::int) = 1 \<or> (0 < (1::int) \<and> 0 < (2::int))" by simp
  ultimately show ?thesis
    using signals_eq_symmetric[of "[WireBit wire_a 0]" "[WireBit wire_b 0]" 1 2 "session True"]
    by blast
qed

text \<open>
  Claim C7, the width and sign normalizer. Both operands come out with the length of the
  longest of the two and the output width, each padded with its own last literal when the
  operation is signed and the operand is not empty, and with the false constant
  otherwise. The operation is signed when the caller forces it or the cell has both
  A_SIGNED and B_SIGNED set. The unary form pads its operand up to the length of the
  output vector, signed when forced or when A_SIGNED is set. The signed operand 1100
  against a two-bit operand at width 6 becomes 111100.
\<close>

theorem extendSignalWidth_pads:
  "extendSignalWidth vec_a vec_b cell y_width forced_signed =
     (let n = max (max (length vec_a) (length vec_b)) y_width;
          sg = (forced_signed \<or>
                (has_param cell (ID ''A_SIGNED'') \<and> has_param cell (ID ''B_SIGNED'') \<and>
                 param_as_bool cell (ID ''A_SIGNED'') \<and> param_as_bool cell (ID ''B_SIGNED'')))
      in (vec_a @ replicate (n - length vec_a)
                    (if sg \<and> vec_a \<noteq> [] then last vec_a else CONST_FALSE),
          vec_b @ replicate (n - length vec_b)
                    (if sg \<and> vec_b \<noteq> [] then last vec_b else CONST_FALSE)))
   \<and> fst (fst (extendSignalWidthUnary vec_a vec_y cell forced_signed s)) =
       vec_a @ replicate (length vec_y - length vec_a)
                 (if (forced_signed \<or>
                      (has_param cell (ID ''A_SIGNED'') \<and> param_as_bool cell (ID ''A_SIGNED'')))
                     \<and> vec_a \<noteq> []
                  then last vec_a else CONST_FALSE)
   \<and> extendSignalWidth [CONST_FALSE, CONST_FALSE, CONST_TRUE, CONST_TRUE] [Var 1, Var 2]
        signed_cell 6 False =
       ([CONST_FALSE, CONST_FALSE, CONST_TRUE, CONST_TRUE, CONST_TRUE, CONST_TRUE],
        [Var 1, Var 2, Var 2, Var 2, Var 2, Var 2])"
  using extendSignalWidth_eq[of vec_a vec_b cell y_width forced_signed]
    extendSignalWidthUnary_operand[of vec_a vec_y cell forced_signed s]
    extendSignalWidth_example
  by simp

text \<open>
  C7 at work: an unsigned cell, a one-bit operand against a three-bit one.
\<close>

theorem extendSignalWidth_pads_witness:
  "extendSignalWidth [Var 1] [Var 2, Var 3, Var 4] assert_cell 0 False =
     ([Var 1, CONST_FALSE, CONST_FALSE], [Var 2, Var 3, Var 4])
   \<and> fst (fst (extendSignalWidthUnary [Var 1] [Var 5, Var 6] signed_cell False (session False))) =
     [Var 1, Var 1]"
  using extendSignalWidth_pads[of "[Var 1]" "[Var 2, Var 3, Var 4]" assert_cell 0 False
      "[Var 5, Var 6]" "session False"]
    extendSignalWidth_pads[of "[Var 1]" "[]" signed_cell 0 False "[Var 5, Var 6]" "session False"]
  by (simp add: Let_def assert_cell_def signed_cell_def has_param_def param_as_bool_def
      as_bool_def ID_def numeral_eq_Suc)

text \<open>
  Claim C8, the obligation of a property cell. For an assert, assume or cover cell with
  one-bit check and enable, at a timestep other than 0, both bits are imported with the
  definition import. A cover gives the conjunction of check and enable, an assert or
  assume gives NOT(enable) OR check. With undef modelling on, check and enable are each
  first conjoined with the negation of their own undef flag.
\<close>

theorem importPropertyCell_obligation:
  assumes ty: "cell_type cell \<in> {''$assert'', ''$assume'', ''$cover''}"
    and a: "getPort cell (ID ''A'') = Inr [pa]"
    and en: "getPort cell (ID ''EN'') = Inr [pe]"
    and t: "timestep \<noteq> 0"
  shows "\<exists>c s1 e s2.
           importDefSigSpec [sigmap s pa] timestep s = Inr ([c], s1) \<and>
           importDefSigSpec [sigmap s pe] timestep s1 = Inr ([e], s2) \<and>
           (if model_undef s then
              (\<exists>uc s3 ue s4.
                 importUndefSigSpec [sigmap s pa] timestep s2 = Inr ([uc], s3) \<and>
                 importUndefSigSpec [sigmap s pe] timestep s3 = Inr ([ue], s4) \<and>
                 importPropertyCell cell timestep s =
                   Inr (if cell_type cell = ''$cover''
                        then AND (AND (NOT uc) c) (AND (NOT ue) e)
                        else OR (NOT (AND (NOT ue) e)) (AND (NOT uc) c), s4) \<and>
                 (\<forall>v. eval v (if cell_type cell = ''$cover''
                               then AND (AND (NOT uc) c) (AND (NOT ue) e)
                               else OR (NOT (AND (NOT ue) e)) (AND (NOT uc) c)) =
                      (if cell_type cell = ''$cover''
                       then (eval v c \<and> \<not> eval v uc) \<and> (eval v e \<and> \<not> eval v ue)
                       else (eval v e \<and> \<not> eval v ue) \<longrightarrow> (eval v c \<and> \<not> eval v uc))))
            else
              importPropertyCell cell timestep s =
                Inr (if cell_type cell = ''$cover'' then AND c e else OR (NOT e) c, s2) \<and>
              (\<forall>v. eval v (if cell_type cell = ''$cover'' then AND c e else OR (NOT e) c) =
                   (if cell_type cell = ''$cover'' then eval v c \<and> eval v e
                    else eval v e \<longrightarrow> eval v c)))"
proof -
  from import_one[of "ImportDefSigSpec [sigmap s pa] timestep" s] t
  obtain c s1 where i1: "importDefSigSpec [sigmap s pa] timestep s = Inr ([c], s1)"
    and l1: "later s s1" by auto
  from import_one[of "ImportDefSigSpec [sigmap s pe] timestep" s1] t
  obtain e s2 where i2: "importDefSigSpec [sigmap s pe] timestep s1 = Inr ([e], s2)"
    and l2: "later s1 s2" by auto
  have mu2: "model_undef s2 = model_undef s" using l1 l2 by (simp add: later_def)
  show ?thesis
  proof (cases "model_undef s")
    case False
    have "importPropertyCell cell timestep s =
        Inr (if cell_type cell = ''$cover'' then AND c e else OR (NOT e) c, s2)"
      using ty a en i1 i2 mu2 False
      by (simp add: importPropertyCell_def Let_def front_def property_result_def)
    with False i1 i2 show ?thesis by auto
  next
    case True
    from import_one[of "ImportUndefSigSpec [sigmap s pa] timestep" s2] t True mu2
    obtain uc s3 where i3: "importUndefSigSpec [sigmap s pa] timestep s2 = Inr ([uc], s3)"
      and l3: "later s2 s3" by auto
    have mu3: "model_undef s3" using l3 mu2 True by (simp add: later_def)
    from import_one[of "ImportUndefSigSpec [sigmap s pe] timestep" s3] t mu3
    obtain ue s4 where i4: "importUndefSigSpec [sigmap s pe] timestep s3 = Inr ([ue], s4)"
      by auto
    have "importPropertyCell cell timestep s =
        Inr (if cell_type cell = ''$cover''
             then AND (AND (NOT uc) c) (AND (NOT ue) e)
             else OR (NOT (AND (NOT ue) e)) (AND (NOT uc) c), s4)"
      using ty a en i1 i2 i3 i4 mu2 True
      by (simp add: importPropertyCell_def Let_def front_def property_result_def)
    with True i1 i2 i3 i4 show ?thesis by auto
  qed
qed

theorem importPropertyCell_obligation_witness:
  "\<exists>c s1 e s2 uc s3 ue s4.
     importDefSigSpec [WireBit wire_a 0] (-1) (session True) = Inr ([c], s1) \<and>
     importDefSigSpec [WireBit wire_b 0] (-1) s1 = Inr ([e], s2) \<and>
     importUndefSigSpec [WireBit wire_a 0] (-1) s2 = Inr ([uc], s3) \<and>
     importUndefSigSpec [WireBit wire_b 0] (-1) s3 = Inr ([ue], s4) \<and>
     importPropertyCell assert_cell (-1) (session True) =
       Inr (OR (NOT (AND (NOT ue) e)) (AND (NOT uc) c), s4)"
proof -
  have ty: "cell_type assert_cell \<in> {''$assert'', ''$assume'', ''$cover''}"
    by (simp add: assert_cell_def)
  have a: "getPort assert_cell (ID ''A'') = Inr [WireBit wire_a 0]"
    by (simp add: assert_cell_def getPort_def ID_def)
  have en: "getPort assert_cell (ID ''EN'') = Inr [WireBit wire_b 0]"
    by (simp add: assert_cell_def getPort_def ID_def)
  have t: "(-1::int) \<noteq> 0" by simp
  have mu: "model_undef (session True)" "sigmap (session True) = id"
    by (simp_all add: session_def SatGen_new_def)
  have nc: "cell_type assert_cell \<noteq> ''$cover''" by (simp add: assert_cell_def)
  from importPropertyCell_obligation[OF ty a en t, of "session True"] mu nc
  show ?thesis by (simp del: eval.simps) blast
qed


section \<open>Properties of the miter construction\<close>




text \<open>
  Claim C9, the failures of the command. When the command ends with a user-facing error
  the design is as it was. It ends so exactly when the arguments are not well formed (an
  unknown option, or not exactly two module names after the options), the source module
  does not exist, the destination module exists, or the source module has memories or
  processes. In every other case the design it leaves is the old one with one module
  added under the destination name, which was free.
\<close>

theorem execute_failures:
  "(\<forall>e. fst (execute K idx args design) = CmdError e \<longrightarrow>
        snd (execute K idx args design) = design) \<and>
   ((\<exists>e. fst (execute K idx args design) = CmdError e) \<longleftrightarrow>
      (module_args args = None \<or>
       (\<exists>src dst. module_args args = Some (src, dst) \<and>
          (design src = None \<or> design dst \<noteq> None \<or>
           (\<exists>m. design src = Some m \<and> (has_memories m \<or> has_processes m)))))) \<and>
   ((\<forall>e. fst (execute K idx args design) \<noteq> CmdError e) \<longrightarrow>
      (\<exists>src dst m. module_args args = Some (src, dst) \<and> design dst = None \<and>
         snd (execute K idx args design) = design(dst \<mapsto> m)))"
proof (cases "parse_options args 1 False False")
  case (Inl e)
  then show ?thesis by (simp add: execute_def module_args_def)
next
  case (Inr r)
  obtain argidx ci ca where r: "r = (argidx, ci, ca)" by (cases r) auto
  show ?thesis
  proof (cases "length args = argidx + 2")
    case False
    with Inr r show ?thesis by (simp add: execute_def module_args_def)
  next
    case True
    let ?src = "escape_id (args ! argidx)"
    let ?dst = "escape_id (args ! (argidx + 1))"
    have ma: "module_args args = Some (?src, ?dst)"
      using Inr r True by (simp add: module_args_def)
    show ?thesis
    proof (cases "design ?src")
      case None
      with Inr r True ma show ?thesis by (simp add: execute_def Let_def)
    next
      case (Some m)
      show ?thesis
      proof (cases "design ?dst \<noteq> None \<or> has_memories m \<or> has_processes m")
        case True
        with Inr r \<open>length args = argidx + 2\<close> ma Some show ?thesis
          by (auto simp: execute_def Let_def)
      next
        case False
        with Inr r \<open>length args = argidx + 2\<close> ma Some show ?thesis
          by (auto simp: execute_def Let_def split: sum.splits)
      qed
    qed
  qed
qed

text \<open>
  C9 as worded names three cases of failure and no other. With an unknown option the
  command fails although the source module exists without memories or processes and the
  destination is free.
\<close>

theorem execute_failures_counterexample:
  "fst (execute kernel0 1 [''sensitizepath'', ''-bogus'', ''top'', ''miter''] design0) =
     CmdError UnknownOption
   \<and> design0 (escape_id ''top'') = Some eqx_module
   \<and> design0 (escape_id ''miter'') = None
   \<and> \<not> has_memories eqx_module \<and> \<not> has_processes eqx_module"
  by code_simp

theorem execute_failures_witness:
  "fst (execute kernel0 1 [''sensitizepath'', ''top'', ''miter''] design0) = Done
   \<and> (\<exists>src dst m. module_args [''sensitizepath'', ''top'', ''miter''] = Some (src, dst) \<and>
        design0 dst = None \<and>
        snd (execute kernel0 1 [''sensitizepath'', ''top'', ''miter''] design0) = design0(dst \<mapsto> m))
   \<and> snd (execute kernel0 1 [''sensitizepath'', ''nosuch'', ''miter''] design0) = design0"
proof -
  have p: "parse_options [''sensitizepath'', ''top'', ''miter''] (Suc 0) False False =
      Inr (Suc 0, False, False)"
    by code_simp
  have s: "design0 (escape_id ''top'') = Some eqx_module" "design0 (escape_id ''miter'') = None"
    "\<not> has_memories eqx_module" "\<not> has_processes eqx_module"
    "escape_id ''miter'' = ID ''miter''" "escape_id ''top'' = ID ''top''"
    "design0 (ID ''top'') = Some eqx_module" "design0 (ID ''miter'') = None"
    by code_simp+
  have "ran (run kernel0 (eqx_worker False))" by code_simp
  then obtain w where
    r: "run kernel0 (new_worker False False eqx_module (new_module (ID ''miter'')) (Suc 0)) = Inr w"
    by (cases "run kernel0 (eqx_worker False)") (simp_all add: ran_def eqx_worker_def)
  have d: "fst (execute kernel0 1 [''sensitizepath'', ''top'', ''miter''] design0) = Done"
    by (simp add: execute_def p s r Let_def)
  have e: "fst (execute kernel0 1 [''sensitizepath'', ''nosuch'', ''miter''] design0) =
      CmdError CantFindSourceModule"
    by code_simp
  from execute_failures[of kernel0 1 "[''sensitizepath'', ''top'', ''miter'']" design0] d
    execute_failures[of kernel0 1 "[''sensitizepath'', ''nosuch'', ''miter'']" design0] e
  show ?thesis by simp
qed



end
